theory Spec2Isabelle
  imports Complex_Main
begin

section \<open>The host document\<close>

text \<open>
  The page-inspection script \<^verbatim>\<open>WebSurfer\<close> runs against a live document.  Every
  answer the host gives (layout, hit testing, computed style, attributes) is a field of the
  record \<open>dom\<close>; the script's own functions are translated one by one below.

  A node reference names a position under a tree root: the document or a shadow root.
  \<^verbatim>\<open>parentNode\<close> of an element is the element above it or, for a top-level element,
  its root; \<^verbatim>\<open>parentNode\<close> of a root is \<^verbatim>\<open>null\<close>.  Only roots and elements
  are nodes here: the functions of this section never visit text nodes.
\<close>

datatype root = Document | ShadowRoot nat

datatype element = Top root nat | Sub element nat

datatype node = RootNode root | ElementNode element

fun parentNode :: "node \<Rightarrow> node option" where
  "parentNode (RootNode r) = None"
| "parentNode (ElementNode (Top r k)) = Some (RootNode r)"
| "parentNode (ElementNode (Sub p k)) = Some (ElementNode p)"

fun parentElement :: "element \<Rightarrow> element option" where
  "parentElement (Top r k) = None"
| "parentElement (Sub p k) = Some p"

text \<open>
  A \<^verbatim>\<open>DOMRect\<close>.  Coordinates are JavaScript numbers; they are rationals here, and
  no statement below depends on rounding.
\<close>

record rect =
  r_left :: rat
  r_top :: rat
  r_width :: rat
  r_height :: rat

text \<open>A thrown value: an \<^verbatim>\<open>Error\<close> object with its name and message.\<close>

datatype exn = Exn (exn_name: string) (exn_message: string)

text \<open>
  The values the script handles besides elements and numbers: a string, \<^verbatim>\<open>null\<close>
  (an absent attribute, no focused element) or \<^verbatim>\<open>undefined\<close> (a property the
  object does not have).
\<close>

datatype jsval = Null | Undefined | Str string

record dom =
  querySelectorAll_star :: "root \<Rightarrow> element list"
  tagName :: "element \<Rightarrow> string"
  attributes :: "element \<Rightarrow> string \<rightharpoonup> string"
  disabled :: "element \<Rightarrow> bool"
  offsetWidth :: "element \<Rightarrow> int"
  offsetHeight :: "element \<Rightarrow> int"
  getClientRects :: "element \<Rightarrow> rect list"
  getBoundingClientRect :: "element \<Rightarrow> rect"
  scrollHeight :: "element \<Rightarrow> int"
  clientHeight :: "element \<Rightarrow> int"
  cursor :: "element \<Rightarrow> string"
  elementFromPoint :: "rat \<Rightarrow> rat \<Rightarrow> element option"
  activeElement :: "element option"
  shadowRoot :: "element \<Rightarrow> root option"
  innerText :: "element \<Rightarrow> jsval"
  innerHTML :: "element \<Rightarrow> string"
  querySelector_span_label :: "element \<Rightarrow> element option"
  labels_for :: "string \<Rightarrow> exn + element list"

definition hasAttribute :: "dom \<Rightarrow> element \<Rightarrow> string \<Rightarrow> bool" where
  "hasAttribute d e a = (attributes d e a \<noteq> None)"

definition getAttribute :: "dom \<Rightarrow> element \<Rightarrow> string \<Rightarrow> jsval" where
  "getAttribute d e a = (case attributes d e a of None \<Rightarrow> Null | Some v \<Rightarrow> Str v)"

text \<open>String conversion, as in \<^verbatim>\<open>"" + v\<close> and in property keys.\<close>

fun js_to_string :: "jsval \<Rightarrow> string" where
  "js_to_string Null = ''null''"
| "js_to_string Undefined = ''undefined''"
| "js_to_string (Str s) = s"

definition setAttribute :: "dom \<Rightarrow> element \<Rightarrow> string \<Rightarrow> string \<Rightarrow> dom" where
  "setAttribute d e a v = d\<lparr>attributes := (attributes d)(e := (attributes d e)(a \<mapsto> v))\<rparr>"

section \<open>Geometry and visibility\<close>

definition isVisible :: "dom \<Rightarrow> element \<Rightarrow> bool" where
  "isVisible d element =
     (offsetWidth d element \<noteq> 0 \<or> offsetHeight d element \<noteq> 0
      \<or> length (getClientRects d element) \<noteq> 0)"

text \<open>The number of \<^verbatim>\<open>parentNode\<close> steps from a node up to its root.\<close>

fun depth :: "node \<Rightarrow> nat" where
  "depth (RootNode r) = 0"
| "depth (ElementNode e) = Suc (size e)"

lemma depth_parentNode: "parentNode n = Some p \<Longrightarrow> depth p < depth n"
  by (induction n rule: parentNode.induct) auto

function isTopmost_loop :: "element \<Rightarrow> node \<Rightarrow> bool" where
  "isTopmost_loop element hit =
     (if hit = ElementNode element then True
      else case parentNode hit of
             None \<Rightarrow> False
           | Some p \<Rightarrow> isTopmost_loop element p)"
  by pat_completeness auto
termination
  by (relation "measure (\<lambda>(element, hit). depth hit)") (auto simp: depth_parentNode)

declare isTopmost_loop.simps [simp del]

definition isTopmost :: "dom \<Rightarrow> element \<Rightarrow> rat \<Rightarrow> rat \<Rightarrow> bool" where
  "isTopmost d element x y =
     (case elementFromPoint d x y of
        None \<Rightarrow> True
      | Some hit \<Rightarrow> isTopmost_loop element (ElementNode hit))"

text \<open>The ancestor chain of a node, the node included: the closure of \<^verbatim>\<open>parentNode\<close>.\<close>

definition parent_step :: "(node \<times> node) set" where
  "parent_step = {(n, p). parentNode n = Some p}"

definition on_ancestor_chain :: "element \<Rightarrow> element \<Rightarrow> bool" where
  "on_ancestor_chain element hit =
     ((ElementNode hit, ElementNode element) \<in> parent_step\<^sup>*)"

section \<open>Strings\<close>

text \<open>
  Strings are lists of ASCII characters.  \<^verbatim>\<open>trim\<close> removes the white space and line
  terminators of that range from both ends.
\<close>

definition is_space :: "char \<Rightarrow> bool" where
  "is_space c = (c \<in> set [CHR 0x09, CHR 0x0A, CHR 0x0B, CHR 0x0C, CHR 0x0D, CHR '' ''])"

definition trim :: "string \<Rightarrow> string" where
  "trim s = rev (dropWhile is_space (rev (dropWhile is_space s)))"

text \<open>\<^verbatim>\<open>s.split(" ")\<close>: the pieces between single spaces; the empty string has one piece.\<close>

fun split_space :: "string \<Rightarrow> string list" where
  "split_space [] = [[]]"
| "split_space (c # cs) =
     (if c = CHR '' '' then [] # split_space cs
      else case split_space cs of
             [] \<Rightarrow> [[c]]
           | w # ws \<Rightarrow> (c # w) # ws)"

definition lower_char :: "char \<Rightarrow> char" where
  "lower_char c =
     (case map_of (zip ''ABCDEFGHIJKLMNOPQRSTUVWXYZ'' ''abcdefghijklmnopqrstuvwxyz'') c of
        None \<Rightarrow> c
      | Some l \<Rightarrow> l)"

definition toLowerCase :: "string \<Rightarrow> string" where
  "toLowerCase s = map lower_char s"

text \<open>\<^verbatim>\<open>"" + n\<close> for a natural number: its decimal digits.\<close>

definition digit_char :: "nat \<Rightarrow> char" where
  "digit_char n = ''0123456789'' ! n"

fun string_of_nat :: "nat \<Rightarrow> string" where
  "string_of_nat n =
     (if n < 10 then [digit_char n] else string_of_nat (n div 10) @ [digit_char (n mod 10)])"

declare string_of_nat.simps [simp del]

section \<open>Role and name\<close>

definition trimmedInnerText :: "dom \<Rightarrow> element option \<Rightarrow> string" where
  "trimmedInnerText d element =
     (case element of
        None \<Rightarrow> ''''
      | Some e \<Rightarrow>
          (case innerText d e of
             Str text \<Rightarrow> if text = '''' then '''' else trim text
           | _ \<Rightarrow> ''''))"

text \<open>
  \<^verbatim>\<open>document.getElementById\<close>: the first element of the document, in document order,
  whose \<^verbatim>\<open>id\<close> is the given one; the empty string names no element.
\<close>

definition getElementById :: "dom \<Rightarrow> string \<Rightarrow> element option" where
  "getElementById d i =
     (if i = '''' then None
      else find (\<lambda>e. attributes d e ''id'' = Some i) (querySelectorAll_star d Document))"

fun labelledby_loop :: "dom \<Rightarrow> string list \<Rightarrow> string \<Rightarrow> string" where
  "labelledby_loop d [] buffer = buffer"
| "labelledby_loop d (i # ids) buffer =
     (case getElementById d i of
        Some label \<Rightarrow>
          labelledby_loop d ids (buffer @ '' '' @ trimmedInnerText d (Some label))
      | None \<Rightarrow> labelledby_loop d ids buffer)"

fun for_labels_loop :: "dom \<Rightarrow> element list \<Rightarrow> string \<Rightarrow> string" where
  "for_labels_loop d [] label = label"
| "for_labels_loop d (l # labels) label =
     for_labels_loop d labels (label @ js_to_string (innerText d l) @ '' '')"

text \<open>
  \<^verbatim>\<open>getApproximateAriaName\<close>.  A test \<^verbatim>\<open>hasAttribute(a)\<close> followed by a use of
  \<^verbatim>\<open>getAttribute(a)\<close> is a case distinction on the attribute.  The host field
  \<open>labels_for\<close> is the outcome of \<^verbatim>\<open>CSS.escape\<close> and the
  \<^verbatim>\<open>label[for=...]\<close> query inside the \<^verbatim>\<open>try\<close> block: the labels found, or the
  exception that the \<^verbatim>\<open>catch\<close> clause logs.  The statements after that block are
  \<open>name_after_labels\<close>, reached on each of its three ways out.
\<close>

definition name_after_labels :: "dom \<Rightarrow> element \<Rightarrow> jsval" where
  "name_after_labels d element =
     (case attributes d element ''name'' of
        Some v \<Rightarrow> Str v
      | None \<Rightarrow>
     (case parentElement element of
        Some parent \<Rightarrow>
          if tagName d parent = ''LABEL'' then innerText d parent
          else (case attributes d element ''alt'' of
                  Some v \<Rightarrow> Str v
                | None \<Rightarrow>
               (case attributes d element ''title'' of
                  Some v \<Rightarrow> Str v
                | None \<Rightarrow> Str (trimmedInnerText d (Some element))))
      | None \<Rightarrow>
          (case attributes d element ''alt'' of
             Some v \<Rightarrow> Str v
           | None \<Rightarrow>
          (case attributes d element ''title'' of
             Some v \<Rightarrow> Str v
           | None \<Rightarrow> Str (trimmedInnerText d (Some element))))))"

definition getApproximateAriaName :: "dom \<Rightarrow> element \<Rightarrow> jsval" where
  "getApproximateAriaName d element =
     (case attributes d element ''aria-label'' of
        Some v \<Rightarrow> Str v
      | None \<Rightarrow>
     (case querySelector_span_label d element of
        Some label_span \<Rightarrow> innerText d label_span
      | None \<Rightarrow>
     (case attributes d element ''aria-labelledby'' of
        Some ids \<Rightarrow> Str (trim (labelledby_loop d (split_space ids) ''''))
      | None \<Rightarrow>
     (case attributes d element ''aria-label'' of
        Some v \<Rightarrow> Str v
      | None \<Rightarrow>
     (case attributes d element ''id'' of
        Some label_id \<Rightarrow>
          (case labels_for d label_id of
             Inr labels \<Rightarrow>
               (let label = trim (for_labels_loop d labels '''')
                in if label \<noteq> '''' then Str label else name_after_labels d element)
           | Inl e \<Rightarrow> name_after_labels d element)
      | None \<Rightarrow> name_after_labels d element)))))"

text \<open>The same function with the second \<^verbatim>\<open>aria-label\<close> test (source lines 335-337) removed.\<close>

definition getApproximateAriaName_without_second_check :: "dom \<Rightarrow> element \<Rightarrow> jsval" where
  "getApproximateAriaName_without_second_check d element =
     (case attributes d element ''aria-label'' of
        Some v \<Rightarrow> Str v
      | None \<Rightarrow>
     (case querySelector_span_label d element of
        Some label_span \<Rightarrow> innerText d label_span
      | None \<Rightarrow>
     (case attributes d element ''aria-labelledby'' of
        Some ids \<Rightarrow> Str (trim (labelledby_loop d (split_space ids) ''''))
      | None \<Rightarrow>
     (case attributes d element ''id'' of
        Some label_id \<Rightarrow>
          (case labels_for d label_id of
             Inr labels \<Rightarrow>
               (let label = trim (for_labels_loop d labels '''')
                in if label \<noteq> '''' then Str label else name_after_labels d element)
           | Inl e \<Rightarrow> name_after_labels d element)
      | None \<Rightarrow> name_after_labels d element))))"

subsection \<open>The cascade as the specification words it\<close>

text \<open>
  Each labelling strategy, on its own: the value it yields when it applies to the element,
  \<open>None\<close> when it does not.
\<close>

definition from_attribute :: "string \<Rightarrow> dom \<Rightarrow> element \<Rightarrow> jsval option" where
  "from_attribute a d element = map_option Str (attributes d element a)"

definition from_span_label :: "dom \<Rightarrow> element \<Rightarrow> jsval option" where
  "from_span_label d element = map_option (innerText d) (querySelector_span_label d element)"

definition from_labelledby :: "dom \<Rightarrow> element \<Rightarrow> jsval option" where
  "from_labelledby d element =
     map_option (\<lambda>ids. Str (trim (labelledby_loop d (split_space ids) '''')))
       (attributes d element ''aria-labelledby'')"

definition from_for_labels :: "dom \<Rightarrow> element \<Rightarrow> jsval option" where
  "from_for_labels d element =
     (case attributes d element ''id'' of
        None \<Rightarrow> None
      | Some label_id \<Rightarrow>
          (case labels_for d label_id of
             Inl e \<Rightarrow> None
           | Inr labels \<Rightarrow>
               (let label = trim (for_labels_loop d labels '''')
                in if label = '''' then None else Some (Str label))))"

definition from_parent_label :: "dom \<Rightarrow> element \<Rightarrow> jsval option" where
  "from_parent_label d element =
     (case parentElement element of
        None \<Rightarrow> None
      | Some parent \<Rightarrow> if tagName d parent = ''LABEL'' then Some (innerText d parent) else None)"

definition from_own_text :: "dom \<Rightarrow> element \<Rightarrow> jsval option" where
  "from_own_text d element = Some (Str (trimmedInnerText d (Some element)))"

definition cascade :: "dom \<Rightarrow> element \<Rightarrow> jsval option list" where
  "cascade d element =
     map (\<lambda>strategy. strategy d element)
       [from_attribute ''aria-label'', from_span_label, from_labelledby,
        from_attribute ''aria-label'', from_for_labels, from_attribute ''name'',
        from_parent_label, from_attribute ''alt'', from_attribute ''title'', from_own_text]"

text \<open>The result of the first strategy that applies.\<close>

fun first_applicable :: "jsval option list \<Rightarrow> jsval" where
  "first_applicable [] = Undefined"
| "first_applicable (Some v # rest) = v"
| "first_applicable (None # rest) = first_applicable rest"

text \<open>The first result that is a non-empty string; the empty string when there is none.\<close>

fun first_non_empty :: "jsval option list \<Rightarrow> jsval" where
  "first_non_empty [] = Str ''''"
| "first_non_empty (Some (Str s) # rest) = (if s \<noteq> '''' then Str s else first_non_empty rest)"
| "first_non_empty (r # rest) = first_non_empty rest"

subsection \<open>Roles\<close>

definition roleMapping :: "(string \<times> string) list" where
  "roleMapping =
     [(''a'', ''link''),
      (''area'', ''link''),
      (''button'', ''button''),
      (''input, type=button'', ''button''),
      (''input, type=checkbox'', ''checkbox''),
      (''input, type=email'', ''textbox''),
      (''input, type=number'', ''spinbutton''),
      (''input, type=radio'', ''radio''),
      (''input, type=range'', ''slider''),
      (''input, type=reset'', ''button''),
      (''input, type=search'', ''searchbox''),
      (''input, type=submit'', ''button''),
      (''input, type=tel'', ''textbox''),
      (''input, type=text'', ''textbox''),
      (''input, type=url'', ''textbox''),
      (''search'', ''search''),
      (''select'', ''combobox''),
      (''option'', ''option''),
      (''textarea'', ''textbox'')]"

text \<open>
  \<^verbatim>\<open>tag in roleMapping\<close> also finds the two lower-case property names every object
  inherits; the role is then that inherited member, not a string.
\<close>

datatype role = Role string | InheritedMember string

definition getApproximateAriaRole :: "dom \<Rightarrow> element \<Rightarrow> role \<times> string" where
  "getApproximateAriaRole d element =
     (let tag0 = toLowerCase (tagName d element);
          tag = (case attributes d element ''type'' of
                   Some t \<Rightarrow> if tag0 = ''input'' then tag0 @ '', type='' @ t else tag0
                 | None \<Rightarrow> tag0)
      in case attributes d element ''role'' of
           Some r \<Rightarrow> (Role r, tag)
         | None \<Rightarrow>
             (case map_of roleMapping tag of
                Some r \<Rightarrow> (Role r, tag)
              | None \<Rightarrow>
                  if tag = ''constructor'' \<or> tag = ''__proto__'' then (InheritedMember tag, tag)
                  else (Role '''', tag)))"

section \<open>Interactive elements\<close>

definition roles :: "string list" where
  "roles =
     [''scrollbar'', ''searchbox'', ''slider'', ''spinbutton'', ''switch'', ''tab'',
      ''treeitem'', ''button'', ''checkbox'', ''gridcell'', ''link'', ''menuitem'',
      ''menuitemcheckbox'', ''menuitemradio'', ''option'', ''progressbar'', ''radio'',
      ''textbox'', ''combobox'', ''menu'', ''tree'', ''treegrid'', ''grid'', ''listbox'',
      ''radiogroup'', ''widget'']"

definition inertCursors :: "string list" where
  "inertCursors =
     [''auto'', ''default'', ''none'', ''text'', ''vertical-text'', ''not-allowed'', ''no-drop'']"

text \<open>
  \<^verbatim>\<open>window.getComputedStyle\<close> accepts elements only: on a document or a shadow root
  it throws.
\<close>

definition getCursor :: "dom \<Rightarrow> node \<Rightarrow> exn + string" where
  "getCursor d elm =
     (case elm of
        ElementNode e \<Rightarrow> Inr (cursor d e)
      | RootNode r \<Rightarrow>
          Inl (Exn ''TypeError'' ''getComputedStyle: parameter 1 is not of type Element''))"

text \<open>
  The selectors of \<^verbatim>\<open>getInteractiveElementsNoShaddow\<close>, on HTML elements:
  \<^verbatim>\<open>input, select, textarea, button, [href], [onclick], [contenteditable],
  [tabindex]:not([tabindex='-1'])\<close> and \<^verbatim>\<open>[role]\<close>.  A query on the document
  returns the matching elements of \<^verbatim>\<open>querySelectorAll("*")\<close>, in document order.
\<close>

definition matches_controls :: "dom \<Rightarrow> element \<Rightarrow> bool" where
  "matches_controls d e =
     (toLowerCase (tagName d e) \<in> set [''input'', ''select'', ''textarea'', ''button'']
      \<or> hasAttribute d e ''href'' \<or> hasAttribute d e ''onclick''
      \<or> hasAttribute d e ''contenteditable''
      \<or> (hasAttribute d e ''tabindex'' \<and> getAttribute d e ''tabindex'' \<noteq> Str ''-1''))"

definition matches_role :: "dom \<Rightarrow> element \<Rightarrow> bool" where
  "matches_role d e = hasAttribute d e ''role''"

fun collect_controls :: "dom \<Rightarrow> element list \<Rightarrow> element list \<Rightarrow> element list" where
  "collect_controls d [] results = results"
| "collect_controls d (n # nodeList) results =
     (if disabled d n \<or> \<not> isVisible d n then collect_controls d nodeList results
      else collect_controls d nodeList (results @ [n]))"

fun collect_roles :: "dom \<Rightarrow> element list \<Rightarrow> element list \<Rightarrow> element list" where
  "collect_roles d [] results = results"
| "collect_roles d (n # nodeList) results =
     (if disabled d n \<or> \<not> isVisible d n then collect_roles d nodeList results
      else if n \<notin> set results then
        (case getAttribute d n ''role'' of
           Str role \<Rightarrow>
             if role \<in> set roles then collect_roles d nodeList (results @ [n])
             else collect_roles d nodeList results
         | _ \<Rightarrow> collect_roles d nodeList results)
      else collect_roles d nodeList results)"

text \<open>
  The loop that moves up to the first ancestor with another cursor.  The parent of a
  top-level element is its root, which is not \<^verbatim>\<open>null\<close>: \<^verbatim>\<open>getCursor\<close> is called
  on it.
\<close>

fun move_up :: "dom \<Rightarrow> string \<Rightarrow> element \<Rightarrow> exn + element" where
  "move_up d c (Top r k) =
     (case getCursor d (RootNode r) of
        Inl e \<Rightarrow> Inl e
      | Inr c' \<Rightarrow> Inr (Top r k))"
| "move_up d c (Sub p k) =
     (case getCursor d (ElementNode p) of
        Inl e \<Rightarrow> Inl e
      | Inr c' \<Rightarrow> if c' = c then move_up d c p else Inr (Sub p k))"

fun collect_cursors :: "dom \<Rightarrow> element list \<Rightarrow> element list \<Rightarrow> exn + element list" where
  "collect_cursors d [] results = Inr results"
| "collect_cursors d (n # nodeList) results =
     (if disabled d n \<or> \<not> isVisible d n then collect_cursors d nodeList results
      else if cursor d n \<in> set inertCursors then collect_cursors d nodeList results
      else case move_up d (cursor d n) n of
             Inl e \<Rightarrow> Inl e
           | Inr node \<Rightarrow>
               if node \<notin> set results then collect_cursors d nodeList (results @ [node])
               else collect_cursors d nodeList results)"

definition getInteractiveElementsNoShaddow :: "dom \<Rightarrow> exn + element list" where
  "getInteractiveElementsNoShaddow d =
     (let everything = querySelectorAll_star d Document;
          results = collect_controls d (filter (matches_controls d) everything) [];
          results = collect_roles d (filter (matches_role d) everything) results
      in collect_cursors d everything results)"

text \<open>
  \<^verbatim>\<open>gatherAllElements\<close>.  The joined selector is a parameter (a predicate on
  elements).  The stack is popped at its end.  The host decides which shadow roots an
  element list leads to, so nothing bounds the loop: not returning is \<open>None\<close>.
\<close>

partial_function (option) gatherAllElements_loop ::
  "dom \<Rightarrow> (element \<Rightarrow> bool) \<Rightarrow> root list \<Rightarrow> element list \<Rightarrow> element list option" where
  "gatherAllElements_loop d selector stack elements =
     (if stack = [] then Some elements
      else gatherAllElements_loop d selector
             (butlast stack @ List.map_filter (shadowRoot d) (querySelectorAll_star d (last stack)))
             (elements @ filter selector (querySelectorAll_star d (last stack))))"

definition gatherAllElements :: "dom \<Rightarrow> (element \<Rightarrow> bool) \<Rightarrow> root \<Rightarrow> element list option" where
  "gatherAllElements d selector start = gatherAllElements_loop d selector [start] []"

definition interactive_roles :: "string list" where
  "interactive_roles =
     [''input'', ''option'', ''select'', ''textarea'', ''button'', ''href'', ''onclick'',
      ''contenteditable'', ''tabindex:not([tabindex=-1])'']"

text \<open>
  The entries of \<open>interactive_roles\<close> joined by commas are type selectors: the last one
  is \<^verbatim>\<open>tabindex:not([tabindex='-1'])\<close> (written above without its quotes; no tag
  name equals it either way).
\<close>

definition matches_interactive_roles :: "dom \<Rightarrow> element \<Rightarrow> bool" where
  "matches_interactive_roles d e =
     (toLowerCase (tagName d e)
        \<in> set [''input'', ''option'', ''select'', ''textarea'', ''button'', ''href'',
               ''onclick'', ''contenteditable'']
      \<or> (toLowerCase (tagName d e) = ''tabindex'' \<and> getAttribute d e ''tabindex'' \<noteq> Str ''-1''))"

fun topmost_at_some_rect :: "dom \<Rightarrow> element \<Rightarrow> rect list \<Rightarrow> bool" where
  "topmost_at_some_rect d e [] = False"
| "topmost_at_some_rect d e (rect # rects) =
     (let x = r_left rect + r_width rect / 2;
          y = r_top rect + r_height rect / 2
      in if isTopmost d e x y then True else topmost_at_some_rect d e rects)"

fun keep_topmost :: "dom \<Rightarrow> element list \<Rightarrow> element list \<Rightarrow> element list" where
  "keep_topmost d [] results = results"
| "keep_topmost d (e # elements_no_shaddow) results =
     (if e \<notin> set results then
        (if topmost_at_some_rect d e (getClientRects d e)
         then keep_topmost d elements_no_shaddow (results @ [e])
         else keep_topmost d elements_no_shaddow results)
      else keep_topmost d elements_no_shaddow results)"

fun add_gathered :: "dom \<Rightarrow> element list \<Rightarrow> element list \<Rightarrow> element list" where
  "add_gathered d [] results = results"
| "add_gathered d (element # elements_all) results =
     (if toLowerCase (tagName d element) = ''input'' \<and> getAttribute d element ''type'' = Str ''file''
      then add_gathered d elements_all (results @ [element])
      else if toLowerCase (tagName d element) = ''option''
      then add_gathered d elements_all (results @ [element])
      else if disabled d element \<or> \<not> isVisible d element
      then add_gathered d elements_all results
      else if toLowerCase (tagName d element) \<in> set interactive_roles
      then add_gathered d elements_all (results @ [element])
      else add_gathered d elements_all results)"

text \<open>
  The outcome of \<^verbatim>\<open>getInteractiveElements\<close>: \<open>None\<close> when the gathering loop does
  not return, \<open>Some (Inl e)\<close> when \<open>e\<close> is thrown, \<open>Some (Inr results)\<close> otherwise.
\<close>

definition getInteractiveElements :: "dom \<Rightarrow> (exn + element list) option" where
  "getInteractiveElements d =
     (case getInteractiveElementsNoShaddow d of
        Inl e \<Rightarrow> Some (Inl e)
      | Inr elements_no_shaddow \<Rightarrow>
          (let results = keep_topmost d elements_no_shaddow []
           in case gatherAllElements d (matches_interactive_roles d) Document of
                None \<Rightarrow> None
              | Some elements_all \<Rightarrow> Some (Inr (add_gathered d elements_all results))))"

section \<open>Identifiers\<close>

text \<open>
  The script's own state is the counter \<^verbatim>\<open>nextLabel\<close>; it lives as long as the page.
  A JavaScript number counts exactly up to \<open>2^53\<close>, which no page lifetime reaches: the
  counter is a natural number.
\<close>

record websurfer =
  page :: dom
  nextLabel :: nat

definition initial_nextLabel :: nat where
  "initial_nextLabel = 10"

fun labelElements_loop :: "element list \<Rightarrow> websurfer \<Rightarrow> websurfer" where
  "labelElements_loop [] s = s"
| "labelElements_loop (e # elements) s =
     (if hasAttribute (page s) e ''__elementId'' then labelElements_loop elements s
      else labelElements_loop elements
             \<lparr>page = setAttribute (page s) e ''__elementId'' (string_of_nat (nextLabel s)),
              nextLabel = nextLabel s + 1\<rparr>)"

definition labelElements ::
  "element list \<Rightarrow> websurfer \<Rightarrow> websurfer \<times> (exn + element list) option" where
  "labelElements elements s =
     (let s' = labelElements_loop elements s in (s', getInteractiveElements (page s')))"

function getFocusedElementId_loop :: "dom \<Rightarrow> node \<Rightarrow> jsval" where
  "getFocusedElementId_loop d elm =
     (case (case elm of
              ElementNode e \<Rightarrow>
                if hasAttribute d e ''__elementId'' then Some (getAttribute d e ''__elementId'')
                else None
            | RootNode r \<Rightarrow> None) of
        Some found \<Rightarrow> found
      | None \<Rightarrow>
          (case parentNode elm of
             None \<Rightarrow> Null
           | Some p \<Rightarrow> getFocusedElementId_loop d p))"
  by pat_completeness auto
termination
  by (relation "measure (\<lambda>(d, elm). depth elm)") (auto simp: depth_parentNode)

declare getFocusedElementId_loop.simps [simp del]

definition getFocusedElementId :: "dom \<Rightarrow> jsval" where
  "getFocusedElementId d =
     (case activeElement d of
        None \<Rightarrow> Null
      | Some elm \<Rightarrow> getFocusedElementId_loop d (ElementNode elm))"

section \<open>The interactive snapshot\<close>

text \<open>
  What \<^verbatim>\<open>getBoundingClientRect()\<close> and \<^verbatim>\<open>getClientRects()\<close> return: a single
  \<^verbatim>\<open>DOMRect\<close>, or a list of them.  Only the list has a \<^verbatim>\<open>length\<close>.
\<close>

datatype rects_value = DOMRect rect | DOMRectList "rect list"

record interactive_record =
  tag_name :: string
  role :: role
  aria_name :: jsval
  v_scrollable :: bool
  rects :: "rects_value list"

text \<open>\<^verbatim>\<open>element.closest("select")\<close>: the element or its nearest ancestor element that is a select.\<close>

fun closest_select :: "dom \<Rightarrow> element \<Rightarrow> element option" where
  "closest_select d (Top r k) =
     (if toLowerCase (tagName d (Top r k)) = ''select'' then Some (Top r k) else None)"
| "closest_select d (Sub p k) =
     (if toLowerCase (tagName d (Sub p k)) = ''select'' then Some (Sub p k)
      else closest_select d p)"

definition select_focused :: "dom \<Rightarrow> element \<Rightarrow> bool" where
  "select_focused d e =
     (case closest_select d e of
        None \<Rightarrow> False
      | Some select \<Rightarrow>
          hasAttribute d select ''__elementId''
          \<and> getFocusedElementId d = getAttribute d select ''__elementId'')"

definition option_visible :: "dom \<Rightarrow> element \<Rightarrow> bool" where
  "option_visible d e = isVisible d e"

definition select_expanded :: "dom \<Rightarrow> element \<Rightarrow> bool" where
  "select_expanded d e =
     (case closest_select d e of
        None \<Rightarrow> False
      | Some select \<Rightarrow> hasAttribute d select ''open'')"

fun topmost_rects :: "dom \<Rightarrow> element \<Rightarrow> rect list \<Rightarrow> rects_value list" where
  "topmost_rects d e [] = []"
| "topmost_rects d e (rect # rs) =
     (let x = r_left rect + r_width rect / 2;
          y = r_top rect + r_height rect / 2
      in if isTopmost d e x y then DOMRect rect # topmost_rects d e rs
         else topmost_rects d e rs)"

text \<open>
  The \<^verbatim>\<open>rects\<close> array of a record, from the value \<open>box\<close> of the local variable
  \<^verbatim>\<open>rects\<close>.  On a \<^verbatim>\<open>DOMRect\<close> the property
  \<^verbatim>\<open>length\<close> is \<^verbatim>\<open>undefined\<close> and \<^verbatim>\<open>undefined > 0\<close> is false: the
  \<^verbatim>\<open>else\<close> branch pushes the value itself.
\<close>

fun record_rects :: "dom \<Rightarrow> element \<Rightarrow> rects_value \<Rightarrow> rects_value list" where
  "record_rects d e (DOMRectList rs) =
     (if length rs > 0 then topmost_rects d e rs else [DOMRectList rs])"
| "record_rects d e (DOMRect r) = [DOMRect r]"

definition make_record :: "dom \<Rightarrow> element \<Rightarrow> rects_value \<Rightarrow> interactive_record" where
  "make_record d e box =
     (let ariaRole = getApproximateAriaRole d e;
          ariaName = getApproximateAriaName d e;
          vScrollable = (scrollHeight d e - clientHeight d e \<ge> 1)
      in \<lparr>tag_name = snd ariaRole, role = fst ariaRole, aria_name = ariaName,
          v_scrollable = vScrollable, rects = record_rects d e box\<rparr>)"

fun getInteractiveRects_loop ::
  "dom \<Rightarrow> element list \<Rightarrow> (string \<rightharpoonup> interactive_record) \<Rightarrow> (string \<rightharpoonup> interactive_record)" where
  "getInteractiveRects_loop d [] results = results"
| "getInteractiveRects_loop d (e # elements) results =
     (let key = getAttribute d e ''__elementId'';
          box = DOMRect (getBoundingClientRect d e)
      in if toLowerCase (tagName d e) = ''option''
            \<and> \<not> (select_focused d e \<or> option_visible d e \<or> select_expanded d e)
         then getInteractiveRects_loop d elements results
         else getInteractiveRects_loop d elements
                (results(js_to_string key \<mapsto> make_record d e box)))"

text \<open>
  \<^verbatim>\<open>getInteractiveRects\<close> returns the state it leaves behind and its outcome.  The
  argument of \<^verbatim>\<open>labelElements\<close> is evaluated first: when that throws or does not
  return, nothing has been labelled.
\<close>

definition getInteractiveRects ::
  "websurfer \<Rightarrow> websurfer \<times> (exn + (string \<rightharpoonup> interactive_record)) option" where
  "getInteractiveRects s =
     (case getInteractiveElements (page s) of
        None \<Rightarrow> (s, None)
      | Some (Inl e) \<Rightarrow> (s, Some (Inl e))
      | Some (Inr found) \<Rightarrow>
          (case labelElements found s of
             (s', None) \<Rightarrow> (s', None)
           | (s', Some (Inl e)) \<Rightarrow> (s', Some (Inl e))
           | (s', Some (Inr elements)) \<Rightarrow>
               (s', Some (Inr (getInteractiveRects_loop (page s') elements Map.empty)))))"

section \<open>A page lifetime\<close>

text \<open>
  The identifiers a call of the labelling loop hands out, with their elements, in the order
  of the assignments.
\<close>

fun assignments :: "element list \<Rightarrow> websurfer \<Rightarrow> (element \<times> nat) list" where
  "assignments [] s = []"
| "assignments (e # elements) s =
     (if hasAttribute (page s) e ''__elementId'' then assignments elements s
      else (e, nextLabel s) #
           assignments elements
             \<lparr>page = setAttribute (page s) e ''__elementId'' (string_of_nat (nextLabel s)),
              nextLabel = nextLabel s + 1\<rparr>)"

text \<open>
  A page lifetime starts with the counter at its base and no element labelled.  Then the
  labeller runs, on any list of elements, and between its runs the host changes the document
  in any way (nodes removed, added, restyled) that leaves the \<^verbatim>\<open>__elementId\<close>
  attributes alone: the labeller is their only writer.  \<open>lifetime tr s\<close>: the lifetime has
  reached the state \<open>s\<close>, and \<open>tr\<close> lists every assignment made so far, oldest first.
\<close>

inductive lifetime :: "(element \<times> nat) list \<Rightarrow> websurfer \<Rightarrow> bool" where
  start: "(\<And>e. \<not> hasAttribute d e ''__elementId'')
          \<Longrightarrow> lifetime [] \<lparr>page = d, nextLabel = initial_nextLabel\<rparr>"
| labelled: "lifetime tr s
          \<Longrightarrow> lifetime (tr @ assignments elements s) (labelElements_loop elements s)"
| host: "lifetime tr s
          \<Longrightarrow> (\<And>e. attributes d' e ''__elementId'' = attributes (page s) e ''__elementId'')
          \<Longrightarrow> lifetime tr (s\<lparr>page := d'\<rparr>)"

text \<open>
  Every identifier in the document is the decimal form of a number below the counter, and
  no two elements carry the same one.
\<close>

definition labels_consistent :: "websurfer \<Rightarrow> bool" where
  "labels_consistent s =
     ((\<forall>e v. attributes (page s) e ''__elementId'' = Some v
          \<longrightarrow> (\<exists>k<nextLabel s. v = string_of_nat k))
      \<and> (\<forall>e e' v. attributes (page s) e ''__elementId'' = Some v
          \<and> attributes (page s) e' ''__elementId'' = Some v \<longrightarrow> e = e'))"

text \<open>
  Two documents that differ in \<^verbatim>\<open>__elementId\<close> attributes only: the host gives the
  same answers in both.
\<close>

definition same_but_labels :: "dom \<Rightarrow> dom \<Rightarrow> bool" where
  "same_but_labels d d' =
     (\<exists>A. d' = d\<lparr>attributes := A\<rparr>
          \<and> (\<forall>e a. a \<noteq> ''__elementId'' \<longrightarrow> A e a = attributes d e a))"

text \<open>What holds of every state of a page lifetime and of the assignments that led to it.\<close>

definition lifetime_invariant :: "(element \<times> nat) list \<Rightarrow> websurfer \<Rightarrow> bool" where
  "lifetime_invariant tr s =
     (map snd tr = [initial_nextLabel ..< nextLabel s]
      \<and> initial_nextLabel \<le> nextLabel s
      \<and> (\<forall>e k. (e, k) \<in> set tr
            \<longrightarrow> attributes (page s) e ''__elementId'' = Some (string_of_nat k))
      \<and> (\<forall>e v. attributes (page s) e ''__elementId'' = Some v
            \<longrightarrow> (\<exists>k. (e, k) \<in> set tr \<and> v = string_of_nat k)))"

text \<open>The loop of \<^verbatim>\<open>getInteractiveRects\<close> reaches \<^verbatim>\<open>results[key] = record\<close> for this element.\<close>

definition makes_record :: "dom \<Rightarrow> element \<Rightarrow> bool" where
  "makes_record d e =
     (\<not> (toLowerCase (tagName d e) = ''option''
         \<and> \<not> (select_focused d e \<or> option_visible d e \<or> select_expanded d e)))"

definition is_file_input :: "dom \<Rightarrow> element \<Rightarrow> bool" where
  "is_file_input d e =
     (toLowerCase (tagName d e) = ''input'' \<and> getAttribute d e ''type'' = Str ''file'')"

definition is_option :: "dom \<Rightarrow> element \<Rightarrow> bool" where
  "is_option d e = (toLowerCase (tagName d e) = ''option'')"

subsection \<open>The option policy in the specification's words\<close>






text \<open>Reading a decimal numeral back, to tell identifiers apart by their strings.\<close>

definition digit_val :: "char \<Rightarrow> nat" where
  "digit_val c = (case map_of (zip ''0123456789'' [0..<10]) c of None \<Rightarrow> 0 | Some v \<Rightarrow> v)"

definition nat_of_string :: "string \<Rightarrow> nat" where
  "nat_of_string cs = foldl (\<lambda>a c. 10 * a + digit_val c) 0 cs"

section \<open>Page metadata\<close>

text \<open>A value that \<^verbatim>\<open>JSON.parse\<close> returns, or that the result object holds.\<close>

datatype json =
  JNull | JBool bool | JNum rat | JString string | JArray "json list"
  | JObject "(string \<times> json) list"










section \<open>Markdown\<close>

text \<open>
  \<^verbatim>\<open>getPageMarkdown\<close> works on a copy of \<^verbatim>\<open>document.body\<close>, text nodes included:
  here the document is a tree.  An element has its tag name as the host reports it, its
  attributes and its child nodes.
\<close>

datatype markup =
  TextNode string
  | CommentNode string
  | Elem string "(string \<times> string) list" "markup list"

text \<open>
  \<^verbatim>\<open>textContent\<close>: of a text node its data, of an element the data of the text nodes
  below it, in document order.  A comment adds nothing to the text of the elements above it
  (the script never reads the \<^verbatim>\<open>textContent\<close> of a comment itself).
\<close>

fun textContent :: "markup \<Rightarrow> string" where
  "textContent (TextNode s) = s"
| "textContent (CommentNode s) = ''''"
| "textContent (Elem t attrs children) = concat (map textContent children)"

text \<open>The nodes below a node, in document order.\<close>

fun descendants :: "markup \<Rightarrow> markup list" where
  "descendants (Elem t attrs children) = concat (map (\<lambda>c. c # descendants c) children)"
| "descendants other = []"

definition has_tag :: "string list \<Rightarrow> markup \<Rightarrow> bool" where
  "has_tag names n =
     (case n of
        Elem t attrs children \<Rightarrow> toLowerCase t \<in> set names
      | _ \<Rightarrow> False)"

text \<open>
  \<^verbatim>\<open>content.querySelectorAll('script, style, nav, footer, aside').forEach(el => el.remove())\<close>:
  every matching element below \<open>content\<close> goes, with all that is below it.
\<close>

fun remove_matching :: "markup \<Rightarrow> markup" where
  "remove_matching (Elem t attrs children) =
     Elem t attrs
       (map remove_matching
          (filter (\<lambda>c. \<not> has_tag [''script'', ''style'', ''nav'', ''footer'', ''aside''] c)
             children))"
| "remove_matching other = other"

definition newline :: string where
  "newline = [CHR 0x0A]"

definition endsWith :: "string \<Rightarrow> string \<Rightarrow> bool" where
  "endsWith s x = (length x \<le> length s \<and> drop (length s - length x) s = x)"

fun list_items_loop :: "string \<Rightarrow> markup list \<Rightarrow> nat \<Rightarrow> string \<Rightarrow> string" where
  "list_items_loop tag [] i listItems = listItems"
| "list_items_loop tag (li # listElements) i listItems =
     (let prefix = (if tag = ''ol'' then string_of_nat (i + 1) @ ''. '' else ''- '');
          liText = trim (textContent li)
      in if liText \<noteq> ''''
         then list_items_loop tag listElements (i + 1) (listItems @ prefix @ liText @ newline)
         else list_items_loop tag listElements (i + 1) listItems)"

text \<open>\<^verbatim>\<open>processElement\<close>: the text for an element, or \<open>None\<close> for \<^verbatim>\<open>null\<close>.\<close>

definition processElement :: "markup \<Rightarrow> string option" where
  "processElement element =
     (case element of
        Elem t attrs children \<Rightarrow>
          (let tag = toLowerCase t;
               text = trim (textContent element)
           in if tag = ''h1'' then Some (if text \<noteq> '''' then ''# '' @ text @ newline @ newline else '''')
              else if tag = ''h2'' then Some (if text \<noteq> '''' then ''## '' @ text @ newline @ newline else '''')
              else if tag = ''h3'' then Some (if text \<noteq> '''' then ''### '' @ text @ newline @ newline else '''')
              else if tag = ''h4'' then Some (if text \<noteq> '''' then ''#### '' @ text @ newline @ newline else '''')
              else if tag = ''h5'' then Some (if text \<noteq> '''' then ''##### '' @ text @ newline @ newline else '''')
              else if tag = ''h6'' then Some (if text \<noteq> '''' then ''###### '' @ text @ newline @ newline else '''')
              else if tag = ''p'' then Some (if text \<noteq> '''' then text @ newline @ newline else '''')
              else if tag = ''a'' then
                (case map_of attrs ''href'' of
                   Some href \<Rightarrow>
                     Some (if href \<noteq> '''' \<and> text \<noteq> '''' then ''['' @ text @ '']('' @ href @ '')''
                           else text)
                 | None \<Rightarrow> Some text)
              else if tag = ''strong'' \<or> tag = ''b'' then Some (if text \<noteq> '''' then ''**'' @ text @ ''**'' else '''')
              else if tag = ''em'' \<or> tag = ''i'' then Some (if text \<noteq> '''' then ''*'' @ text @ ''*'' else '''')
              else if tag = ''code'' then Some (if text \<noteq> '''' then ''`'' @ text @ ''`'' else '''')
              else if tag = ''pre'' then
                Some (if text \<noteq> ''''
                      then ''```'' @ newline @ text @ newline @ ''```'' @ newline @ newline
                      else '''')
              else if tag = ''ul'' \<or> tag = ''ol'' then
                (let listItems = list_items_loop tag (filter (has_tag [''li'']) (descendants element)) 0 ''''
                 in Some (if listItems \<noteq> '''' then listItems @ newline else ''''))
              else if tag = ''blockquote'' then Some (if text \<noteq> '''' then ''> '' @ text @ newline @ newline else '''')
              else if tag = ''br'' then Some newline
              else if tag = ''hr'' then Some (''---'' @ newline @ newline)
              else None)
      | _ \<Rightarrow> Some '''')"

definition blockElements :: "string list" where
  "blockElements = [''div'', ''p'', ''section'', ''article'', ''header'', ''main'']"

text \<open>\<^verbatim>\<open>walkNodes\<close>, with the variable \<^verbatim>\<open>markdown\<close> passed along.\<close>

fun walkNodes :: "markup \<Rightarrow> string \<Rightarrow> string"
  and walk_children :: "markup list \<Rightarrow> string \<Rightarrow> string" where
  "walkNodes (TextNode s) markdown =
     (let text = trim s
      in if text \<noteq> '''' then
           (if markdown \<noteq> '''' \<and> \<not> endsWith markdown '' '' \<and> \<not> endsWith markdown newline
            then markdown @ '' '' @ text
            else markdown @ text)
         else markdown)"
| "walkNodes (CommentNode s) markdown = markdown"
| "walkNodes (Elem t attrs children) markdown =
     (case processElement (Elem t attrs children) of
        Some processed \<Rightarrow> markdown @ processed
      | None \<Rightarrow>
          (let walked = walk_children children markdown
           in if toLowerCase t \<in> set blockElements \<and> walked \<noteq> '''' \<and> \<not> endsWith walked newline
              then walked @ newline
              else walked))"
| "walk_children [] markdown = markdown"
| "walk_children (c # children) markdown = walk_children children (walkNodes c markdown)"

text \<open>The three replacements: runs of spaces and tabs, runs of three or more line feeds, both ends.\<close>

definition is_blank :: "char \<Rightarrow> bool" where
  "is_blank c = (c = CHR '' '' \<or> c = CHR 0x09)"

function collapse_blanks :: "string \<Rightarrow> string" where
  "collapse_blanks [] = []"
| "collapse_blanks (c # cs) =
     (if is_blank c then CHR '' '' # collapse_blanks (dropWhile is_blank cs)
      else c # collapse_blanks cs)"
  by pat_completeness auto
termination
  by (relation "measure length") (auto simp: less_Suc_eq_le length_dropWhile_le)

function collapse_newlines :: "string \<Rightarrow> string" where
  "collapse_newlines [] = []"
| "collapse_newlines (c # cs) =
     (if c = CHR 0x0A then
        (if length (takeWhile (\<lambda>x. x = CHR 0x0A) cs) \<ge> 2
         then newline @ newline @ collapse_newlines (dropWhile (\<lambda>x. x = CHR 0x0A) cs)
         else c # collapse_newlines cs)
      else c # collapse_newlines cs)"
  by pat_completeness auto
termination
  by (relation "measure length") (auto simp: less_Suc_eq_le length_dropWhile_le)

text \<open>
  The \<^verbatim>\<open>try\<close> block.  \<open>body\<close> is \<^verbatim>\<open>document.body\<close>, \<open>None\<close> when the document
  has none: reading \<^verbatim>\<open>cloneNode\<close> of \<^verbatim>\<open>null\<close> throws.  The copy that
  \<^verbatim>\<open>cloneNode(true)\<close> makes is the same tree.
\<close>

definition getPageMarkdown_try :: "markup option \<Rightarrow> exn + string" where
  "getPageMarkdown_try body =
     (case body of
        None \<Rightarrow> Inl (Exn ''TypeError'' ''Cannot read properties of null (reading cloneNode)'')
      | Some b \<Rightarrow>
          (let content = remove_matching b;
               walked = walkNodes content '''';
               markdown = trim (collapse_newlines (collapse_blanks walked))
           in Inr (if markdown \<noteq> '''' then markdown else ''No content found'')))"

text \<open>\<^verbatim>\<open>getPageMarkdown\<close>: the block and its \<^verbatim>\<open>catch\<close> clause.\<close>

definition getPageMarkdown :: "markup option \<Rightarrow> exn + string" where
  "getPageMarkdown body =
     (case getPageMarkdown_try body of
        Inr markdown \<Rightarrow> Inr markdown
      | Inl error \<Rightarrow> Inr (''Error extracting page content: '' @ exn_message error))"

section \<open>Example pages\<close>

definition zero_rect :: rect where
  "zero_rect = \<lparr>r_left = 0, r_top = 0, r_width = 0, r_height = 0\<rparr>"

text \<open>A page with no elements: every host answer is the empty one.\<close>

definition empty_page :: dom where
  "empty_page =
     \<lparr>querySelectorAll_star = (\<lambda>r. []),
      tagName = (\<lambda>e. ''DIV''),
      attributes = (\<lambda>e. Map.empty),
      disabled = (\<lambda>e. False),
      offsetWidth = (\<lambda>e. 0),
      offsetHeight = (\<lambda>e. 0),
      getClientRects = (\<lambda>e. []),
      getBoundingClientRect = (\<lambda>e. zero_rect),
      scrollHeight = (\<lambda>e. 0),
      clientHeight = (\<lambda>e. 0),
      cursor = (\<lambda>e. ''auto''),
      elementFromPoint = (\<lambda>x y. None),
      activeElement = None,
      shadowRoot = (\<lambda>e. None),
      innerText = (\<lambda>e. Str ''''),
      innerHTML = (\<lambda>e. ''''),
      querySelector_span_label = (\<lambda>e. None),
      labels_for = (\<lambda>i. Inr [])\<rparr>"

text \<open>\<^verbatim>\<open><input aria-label="" name="q">\<close> as the only element of the document.\<close>

definition empty_label_page :: dom where
  "empty_label_page =
     empty_page
       \<lparr>querySelectorAll_star := (\<lambda>r. if r = Document then [Top Document 0] else []),
        tagName := (\<lambda>e. ''INPUT''),
        attributes := (\<lambda>e. if e = Top Document 0
                            then [''aria-label'' \<mapsto> '''', ''name'' \<mapsto> ''q'']
                            else Map.empty)\<rparr>"

text \<open>The state of the script on a page just loaded.\<close>

definition fresh :: "dom \<Rightarrow> websurfer" where
  "fresh d = \<lparr>page = d, nextLabel = initial_nextLabel\<rparr>"

definition box :: rect where
  "box = \<lparr>r_left = 0, r_top = 0, r_width = 100, r_height = 20\<rparr>"

text \<open>
  A closed \<^verbatim>\<open>select\<close> with three \<^verbatim>\<open>option\<close> children that have no layout box of
  their own; \<open>focus\<close> is the active element.
\<close>

definition the_select :: element where
  "the_select = Top Document 0"

definition select_page :: "element option \<Rightarrow> dom" where
  "select_page focus =
     empty_page
       \<lparr>querySelectorAll_star :=
          (\<lambda>r. if r = Document
               then [the_select, Sub the_select 0, Sub the_select 1, Sub the_select 2]
               else []),
        tagName := (\<lambda>e. if e = the_select then ''SELECT'' else ''OPTION''),
        offsetWidth := (\<lambda>e. if e = the_select then 100 else 0),
        offsetHeight := (\<lambda>e. if e = the_select then 20 else 0),
        getClientRects := (\<lambda>e. if e = the_select then [box] else []),
        getBoundingClientRect := (\<lambda>e. if e = the_select then box else zero_rect),
        cursor := (\<lambda>e. ''default''),
        elementFromPoint := (\<lambda>x y. Some the_select),
        activeElement := focus\<rparr>"

definition select_record :: interactive_record where
  "select_record =
     \<lparr>tag_name = ''select'', role = Role ''combobox'', aria_name = Str '''',
      v_scrollable = False, rects = [DOMRect box]\<rparr>"


text \<open>\<^verbatim>\<open><input type="file" style="display: none">\<close> as the only element.\<close>

definition hidden_file_page :: dom where
  "hidden_file_page =
     empty_page
       \<lparr>querySelectorAll_star := (\<lambda>r. if r = Document then [Top Document 0] else []),
        tagName := (\<lambda>e. ''INPUT''),
        attributes := (\<lambda>e. if e = Top Document 0 then [''type'' \<mapsto> ''file''] else Map.empty)\<rparr>"

definition file_input_record :: interactive_record where
  "file_input_record =
     \<lparr>tag_name = ''input, type=file'', role = Role '''', aria_name = Str '''',
      v_scrollable = False, rects = [DOMRect zero_rect]\<rparr>"

text \<open>
  A \<^verbatim>\<open>button\<close> and, after it, a \<^verbatim>\<open>div\<close> that covers it completely: the host
  reports the \<^verbatim>\<open>div\<close> at every point.
\<close>

definition the_button :: element where
  "the_button = Top Document 0"

definition the_overlay :: element where
  "the_overlay = Top Document 1"

definition occluded_button_page :: dom where
  "occluded_button_page =
     empty_page
       \<lparr>querySelectorAll_star := (\<lambda>r. if r = Document then [the_button, the_overlay] else []),
        tagName := (\<lambda>e. if e = the_button then ''BUTTON'' else ''DIV''),
        offsetWidth := (\<lambda>e. 100),
        offsetHeight := (\<lambda>e. 20),
        getClientRects := (\<lambda>e. [box]),
        getBoundingClientRect := (\<lambda>e. box),
        cursor := (\<lambda>e. ''default''),
        elementFromPoint := (\<lambda>x y. Some the_overlay),
        innerText := (\<lambda>e. if e = the_button then Str ''OK'' else Str '''')\<rparr>"

definition button_record :: interactive_record where
  "button_record =
     \<lparr>tag_name = ''button'', role = Role ''button'', aria_name = Str ''OK'',
      v_scrollable = False, rects = [DOMRect box]\<rparr>"

text \<open>
  A short lifetime on the page of the select: two elements are labelled, the host then
  removes every node from the document, and a third element is labelled.
\<close>

definition two_labelled :: websurfer where
  "two_labelled = labelElements_loop [the_select, Sub the_select 0] (fresh (select_page None))"

definition after_removal :: websurfer where
  "after_removal = two_labelled\<lparr>page := (page two_labelled)\<lparr>querySelectorAll_star := (\<lambda>r. [])\<rparr>\<rparr>"

definition three_labelled :: websurfer where
  "three_labelled = labelElements_loop [Sub the_select 1] after_removal"


definition hidden_file_state :: websurfer where
  "hidden_file_state = fst (getInteractiveRects (fresh hidden_file_page))"







text \<open>\<^verbatim>\<open><body><h1>Title</h1><p>Body text</p><ul><li>a</li><li>b</li></ul></body>\<close>\<close>

definition sample_body :: markup where
  "sample_body =
     Elem ''BODY'' []
       [Elem ''H1'' [] [TextNode ''Title''],
        Elem ''P'' [] [TextNode ''Body text''],
        Elem ''UL'' [] [Elem ''LI'' [] [TextNode ''a''], Elem ''LI'' [] [TextNode ''b'']]]"

section \<open>Running the script on the example pages\<close>

lemmas label_eval =
  hasAttribute_def getAttribute_def setAttribute_def
  string_of_nat.simps digit_char_def fresh_def initial_nextLabel_def empty_page_def

lemmas page_eval =
  getInteractiveRects_def getInteractiveElements_def getInteractiveElementsNoShaddow_def
  gatherAllElements_def gatherAllElements_loop.simps labelElements_def
  matches_controls_def matches_role_def matches_interactive_roles_def
  interactive_roles_def inertCursors_def roles_def
  isVisible_def isTopmost_def isTopmost_loop.simps getCursor_def
  hasAttribute_def getAttribute_def setAttribute_def
  toLowerCase_def lower_char_def string_of_nat.simps digit_char_def
  List.map_filter_def Let_def fresh_def initial_nextLabel_def
  make_record_def getApproximateAriaRole_def getApproximateAriaName_def name_after_labels_def
  trimmedInnerText_def trim_def is_space_def roleMapping_def
  select_focused_def option_visible_def select_expanded_def
  getFocusedElementId_def getFocusedElementId_loop.simps
  empty_page_def zero_rect_def box_def

lemma labels_consistent_fresh:
  "(\<And>e. attributes d e ''__elementId'' = None) \<Longrightarrow> labels_consistent (fresh d)"
  by (simp add: labels_consistent_def fresh_def)


lemma select_page_unfocused:
  "snd (getInteractiveRects (fresh (select_page None))) = Some (Inr [''10'' \<mapsto> select_record])"
  by (simp add: page_eval select_page_def select_record_def the_select_def)


lemma hidden_file_page_rects:
  "snd (getInteractiveRects (fresh hidden_file_page)) = Some (Inr [''10'' \<mapsto> file_input_record])"
  by (simp add: page_eval hidden_file_page_def file_input_record_def)

lemma occluded_button_page_rects:
  "snd (getInteractiveRects (fresh occluded_button_page)) = Some (Inr [''10'' \<mapsto> button_record])"
  by (simp add: page_eval occluded_button_page_def button_record_def the_button_def the_overlay_def)


section \<open>Hit testing\<close>

lemma isTopmost_loop_chain:
  "isTopmost_loop element hit = ((hit, ElementNode element) \<in> parent_step\<^sup>*)"
proof (induction element hit rule: isTopmost_loop.induct)
  case (1 element hit)
  show ?case
  proof (cases "hit = ElementNode element")
    case True
    then show ?thesis by (subst isTopmost_loop.simps) simp
  next
    case False
    note neq = this
    show ?thesis
    proof (cases "parentNode hit")
      case None
      have "(hit, ElementNode element) \<notin> parent_step\<^sup>*"
      proof
        assume "(hit, ElementNode element) \<in> parent_step\<^sup>*"
        then show False
          using neq None by (cases rule: converse_rtranclE) (auto simp: parent_step_def)
      qed
      then show ?thesis using neq None by (subst isTopmost_loop.simps) simp
    next
      case (Some p)
      have "((hit, ElementNode element) \<in> parent_step\<^sup>*)
            = ((p, ElementNode element) \<in> parent_step\<^sup>*)"
      proof
        assume "(hit, ElementNode element) \<in> parent_step\<^sup>*"
        then show "(p, ElementNode element) \<in> parent_step\<^sup>*"
          using neq Some by (cases rule: converse_rtranclE) (auto simp: parent_step_def)
      next
        assume "(p, ElementNode element) \<in> parent_step\<^sup>*"
        moreover have "(hit, p) \<in> parent_step" using Some by (simp add: parent_step_def)
        ultimately show "(hit, ElementNode element) \<in> parent_step\<^sup>*"
          by (rule converse_rtrancl_into_rtrancl [rotated])
      qed
      moreover have "isTopmost_loop element hit = isTopmost_loop element p"
        using neq Some by (subst isTopmost_loop.simps) simp
      ultimately show ?thesis using "1.IH" [OF neq Some] by simp
    qed
  qed
qed

text \<open>
  Claim C9.  \<^verbatim>\<open>isTopmost(element, x, y)\<close> is true when the host reports no element
  at \<open>(x, y)\<close>; otherwise it is true exactly when the element painted there is the given
  element or has it on its ancestor chain, and false in every other case.
\<close>

theorem isTopmost_hit_test:
  "isTopmost d element x y =
     (case elementFromPoint d x y of
        None \<Rightarrow> True
      | Some hit \<Rightarrow> on_ancestor_chain element hit)"
  by (simp add: isTopmost_def on_ancestor_chain_def isTopmost_loop_chain split: option.split)

section \<open>The accessible-name cascade\<close>

text \<open>
  Claim C10.  \<^verbatim>\<open>getApproximateAriaName\<close> returns, for every element, what the
  function without its second \<^verbatim>\<open>aria-label\<close> test returns: an element with that
  attribute has already returned at the first test.
\<close>

theorem second_aria_label_check_unreachable:
  "getApproximateAriaName d element = getApproximateAriaName_without_second_check d element"
  unfolding getApproximateAriaName_def getApproximateAriaName_without_second_check_def
  by (simp split: option.split)

lemma name_after_labels_cascade:
  "name_after_labels d element =
     first_applicable
       [from_attribute ''name'' d element, from_parent_label d element,
        from_attribute ''alt'' d element, from_attribute ''title'' d element,
        from_own_text d element]"
  by (simp add: name_after_labels_def from_attribute_def from_parent_label_def from_own_text_def
           split: option.split)

text \<open>
  Claim C3, as amended.  The resolver tries the strategies in the stated order and returns
  what the first one that applies yields: an attribute applies when it is present, the
  \<^verbatim>\<open>span.label\<close> child and the parent \<^verbatim>\<open>label\<close> when they exist, the
  \<^verbatim>\<open>for\<close>-labels when the lookup succeeds and their trimmed text is not empty, the
  element's own trimmed text always.
\<close>

theorem getApproximateAriaName_first_applicable:
  "getApproximateAriaName d element = first_applicable (cascade d element)"
  by (simp add: getApproximateAriaName_def cascade_def name_after_labels_cascade
        from_attribute_def from_span_label_def from_labelledby_def from_for_labels_def Let_def
      split: option.split sum.split)

theorem getApproximateAriaName_first_applicable_witness:
  "getApproximateAriaName empty_label_page (Top Document 0)
     = first_applicable (cascade empty_label_page (Top Document 0))
   \<and> first_applicable (cascade empty_label_page (Top Document 0)) = Str ''''"
  using getApproximateAriaName_first_applicable [of empty_label_page "Top Document 0"]
  by (simp add: cascade_def from_attribute_def empty_label_page_def empty_page_def)

text \<open>
  Claim C3 as stated fails: with an empty \<^verbatim>\<open>aria-label\<close> the resolver returns the
  empty string, although the \<^verbatim>\<open>name\<close> strategy further down yields \<open>q\<close>.
\<close>

theorem getApproximateAriaName_not_first_non_empty:
  "getApproximateAriaName empty_label_page (Top Document 0) = Str ''''
   \<and> first_non_empty (cascade empty_label_page (Top Document 0)) = Str ''q''"
  by (simp add: getApproximateAriaName_def cascade_def from_attribute_def from_span_label_def
        from_labelledby_def from_for_labels_def from_parent_label_def from_own_text_def
        empty_label_page_def empty_page_def)

section \<open>The labeller\<close>

lemma digit_val_digit_char_all: "\<forall>n\<in>set [0..<10]. digit_val (digit_char n) = n"
  by code_simp

lemma digit_val_digit_char: "n < 10 \<Longrightarrow> digit_val (digit_char n) = n"
  using digit_val_digit_char_all by simp

lemma nat_of_string_snoc: "nat_of_string (cs @ [c]) = 10 * nat_of_string cs + digit_val c"
  by (simp add: nat_of_string_def)

lemma nat_of_string_of_nat: "nat_of_string (string_of_nat n) = n"
proof (induction n rule: string_of_nat.induct)
  case (1 n)
  show ?case
  proof (cases "n < 10")
    case True
    then show ?thesis
      by (subst string_of_nat.simps) (simp add: nat_of_string_def digit_val_digit_char)
  next
    case False
    then have "nat_of_string (string_of_nat n)
        = 10 * nat_of_string (string_of_nat (n div 10)) + digit_val (digit_char (n mod 10))"
      by (subst string_of_nat.simps) (simp add: nat_of_string_snoc)
    also have "\<dots> = 10 * (n div 10) + n mod 10"
      using "1.IH" [OF False] by (simp add: digit_val_digit_char)
    finally show ?thesis by simp
  qed
qed

lemma string_of_nat_inject: "string_of_nat m = string_of_nat n \<Longrightarrow> m = n"
  by (metis nat_of_string_of_nat)

lemma same_but_labels_refl: "same_but_labels d d"
  unfolding same_but_labels_def by (rule exI [of _ "attributes d"]) simp

lemma same_but_labels_trans:
  "same_but_labels d d' \<Longrightarrow> same_but_labels d' d'' \<Longrightarrow> same_but_labels d d''"
  unfolding same_but_labels_def by (elim exE conjE) (rule exI, auto)

lemma same_but_labels_setAttribute:
  "same_but_labels d (setAttribute d e ''__elementId'' v)"
  unfolding same_but_labels_def setAttribute_def
  by (rule exI [of _ "(attributes d)(e := (attributes d e)(''__elementId'' \<mapsto> v))"]) simp

lemma labelElements_loop_same_page:
  "same_but_labels (page s) (page (labelElements_loop elements s))"
proof (induction elements arbitrary: s)
  case Nil
  show ?case by (simp add: same_but_labels_refl)
next
  case (Cons e elements)
  show ?case
  proof (cases "hasAttribute (page s) e ''__elementId''")
    case True
    then show ?thesis using Cons.IH [of s] by simp
  next
    case False
    let ?s = "\<lparr>page = setAttribute (page s) e ''__elementId'' (string_of_nat (nextLabel s)),
               nextLabel = nextLabel s + 1\<rparr>"
    have "same_but_labels (page s) (page ?s)"
      by (simp add: same_but_labels_setAttribute)
    moreover have "same_but_labels (page ?s) (page (labelElements_loop elements ?s))"
      by (rule Cons.IH)
    ultimately show ?thesis using False
      by (simp add: same_but_labels_trans)
  qed
qed

lemma labelElements_loop_nextLabel_mono:
  "nextLabel s \<le> nextLabel (labelElements_loop elements s)"
proof (induction elements arbitrary: s)
  case Nil
  show ?case by simp
next
  case (Cons e elements)
  show ?case
    using Cons.IH [of s]
      Cons.IH [of "\<lparr>page = setAttribute (page s) e ''__elementId'' (string_of_nat (nextLabel s)),
                    nextLabel = nextLabel s + 1\<rparr>"]
    by (auto simp del: labelElements_loop.simps simp add: labelElements_loop.simps(2))
qed

lemma setAttribute_other:
  "attributes d e' ''__elementId'' = Some v
   \<Longrightarrow> hasAttribute d e ''__elementId'' = False
   \<Longrightarrow> attributes (setAttribute d e ''__elementId'' w) e' ''__elementId'' = Some v"
  by (auto simp: setAttribute_def hasAttribute_def)

lemma labelElements_loop_keeps:
  "attributes (page s) e' ''__elementId'' = Some v
   \<Longrightarrow> attributes (page (labelElements_loop elements s)) e' ''__elementId'' = Some v"
proof (induction elements arbitrary: s)
  case Nil
  then show ?case by simp
next
  case (Cons e elements)
  show ?case
  proof (cases "hasAttribute (page s) e ''__elementId''")
    case True
    then show ?thesis using Cons.IH [OF Cons.prems] by simp
  next
    case False
    then show ?thesis
      using Cons.IH [of "\<lparr>page = setAttribute (page s) e ''__elementId'' (string_of_nat (nextLabel s)),
                    nextLabel = nextLabel s + 1\<rparr>"] Cons.prems
      by (simp add: setAttribute_other)
  qed
qed

lemma labelElements_loop_labels_all:
  "e \<in> set elements \<Longrightarrow> hasAttribute (page (labelElements_loop elements s)) e ''__elementId''"
proof (induction elements arbitrary: s)
  case Nil
  then show ?case by simp
next
  case (Cons x elements)
  let ?s = "\<lparr>page = setAttribute (page s) x ''__elementId'' (string_of_nat (nextLabel s)),
               nextLabel = nextLabel s + 1\<rparr>"
  show ?case
  proof (cases "e = x")
    case True
    show ?thesis
    proof (cases "hasAttribute (page s) x ''__elementId''")
      case has: True
      then obtain v where "attributes (page s) x ''__elementId'' = Some v"
        by (auto simp: hasAttribute_def)
      then have "attributes (page (labelElements_loop elements s)) x ''__elementId'' = Some v"
        by (rule labelElements_loop_keeps)
      then show ?thesis using has True by (simp add: hasAttribute_def)
    next
      case False
      have "attributes (page ?s) x ''__elementId'' = Some (string_of_nat (nextLabel s))"
        by (simp add: setAttribute_def)
      then have "attributes (page (labelElements_loop elements ?s)) x ''__elementId''
                   = Some (string_of_nat (nextLabel s))"
        by (rule labelElements_loop_keeps)
      then show ?thesis using False True by (simp add: hasAttribute_def)
    qed
  next
    case False
    then have "e \<in> set elements" using Cons.prems by simp
    then show ?thesis using Cons.IH [of s] Cons.IH [of ?s] by simp
  qed
qed

lemma labelElements_loop_noop:
  "(\<And>e. e \<in> set elements \<Longrightarrow> hasAttribute (page s) e ''__elementId'')
   \<Longrightarrow> labelElements_loop elements s = s"
  by (induction elements) simp_all

lemma labelElements_loop_idem:
  "labelElements_loop elements (labelElements_loop elements s) = labelElements_loop elements s"
  by (rule labelElements_loop_noop) (rule labelElements_loop_labels_all)

lemma assignments_ids:
  "map snd (assignments elements s) = [nextLabel s ..< nextLabel (labelElements_loop elements s)]"
proof (induction elements arbitrary: s)
  case Nil
  show ?case by simp
next
  case (Cons e elements)
  let ?s = "\<lparr>page = setAttribute (page s) e ''__elementId'' (string_of_nat (nextLabel s)),
               nextLabel = nextLabel s + 1\<rparr>"
  show ?case
  proof (cases "hasAttribute (page s) e ''__elementId''")
    case True
    then show ?thesis using Cons.IH [of s] by simp
  next
    case False
    have "Suc (nextLabel s) \<le> nextLabel (labelElements_loop elements ?s)"
      using labelElements_loop_nextLabel_mono [of ?s elements] by simp
    then have "[nextLabel s ..< nextLabel (labelElements_loop elements ?s)]
                 = nextLabel s # [Suc (nextLabel s) ..< nextLabel (labelElements_loop elements ?s)]"
      by (simp add: upt_conv_Cons)
    then show ?thesis using False Cons.IH [of ?s] by simp
  qed
qed

lemma assignments_stamped:
  "(e, k) \<in> set (assignments elements s)
   \<Longrightarrow> attributes (page (labelElements_loop elements s)) e ''__elementId''
         = Some (string_of_nat k)"
proof (induction elements arbitrary: s)
  case Nil
  then show ?case by simp
next
  case (Cons x elements)
  let ?s = "\<lparr>page = setAttribute (page s) x ''__elementId'' (string_of_nat (nextLabel s)),
               nextLabel = nextLabel s + 1\<rparr>"
  show ?case
  proof (cases "hasAttribute (page s) x ''__elementId''")
    case True
    then show ?thesis using Cons.IH [of s] Cons.prems by simp
  next
    case False
    show ?thesis
    proof (cases "(e, k) = (x, nextLabel s)")
      case True
      have "attributes (page ?s) x ''__elementId'' = Some (string_of_nat (nextLabel s))"
        by (simp add: setAttribute_def)
      then have "attributes (page (labelElements_loop elements ?s)) x ''__elementId''
                   = Some (string_of_nat (nextLabel s))"
        by (rule labelElements_loop_keeps)
      then show ?thesis using False True by simp
    next
      case neq: False
      then have "(e, k) \<in> set (assignments elements ?s)"
        using Cons.prems False by auto
      then show ?thesis using Cons.IH [of ?s] False by simp
    qed
  qed
qed

lemma assignments_cover:
  "attributes (page s) e ''__elementId'' = None
   \<Longrightarrow> attributes (page (labelElements_loop elements s)) e ''__elementId'' = Some v
   \<Longrightarrow> \<exists>k. (e, k) \<in> set (assignments elements s) \<and> v = string_of_nat k"
proof (induction elements arbitrary: s)
  case Nil
  then show ?case by simp
next
  case (Cons x elements)
  let ?s = "\<lparr>page = setAttribute (page s) x ''__elementId'' (string_of_nat (nextLabel s)),
               nextLabel = nextLabel s + 1\<rparr>"
  show ?case
  proof (cases "hasAttribute (page s) x ''__elementId''")
    case True
    then show ?thesis using Cons.IH [of s] Cons.prems by simp
  next
    case False
    show ?thesis
    proof (cases "e = x")
      case True
      have "attributes (page ?s) x ''__elementId'' = Some (string_of_nat (nextLabel s))"
        by (simp add: setAttribute_def)
      then have "attributes (page (labelElements_loop elements ?s)) x ''__elementId''
                   = Some (string_of_nat (nextLabel s))"
        by (rule labelElements_loop_keeps)
      then have "v = string_of_nat (nextLabel s)"
        using Cons.prems(2) False True by simp
      then show ?thesis using False True by auto
    next
      case neq: False
      then have "attributes (page ?s) e ''__elementId'' = None"
        using Cons.prems(1) by (simp add: setAttribute_def)
      moreover have "attributes (page (labelElements_loop elements ?s)) e ''__elementId'' = Some v"
        using Cons.prems(2) False by simp
      ultimately obtain k where "(e, k) \<in> set (assignments elements ?s)" "v = string_of_nat k"
        using Cons.IH [of ?s] by blast
      then show ?thesis using False by auto
    qed
  qed
qed

lemma lifetime_invariant_holds: "lifetime tr s \<Longrightarrow> lifetime_invariant tr s"
proof (induction rule: lifetime.induct)
  case (start d)
  then show ?case by (simp add: lifetime_invariant_def hasAttribute_def)
next
  case (labelled tr s elements)
  let ?s' = "labelElements_loop elements s"
  from labelled.IH have ids: "map snd tr = [initial_nextLabel ..< nextLabel s]"
    and base: "initial_nextLabel \<le> nextLabel s"
    and stamped: "\<And>e k. (e, k) \<in> set tr
          \<Longrightarrow> attributes (page s) e ''__elementId'' = Some (string_of_nat k)"
    and cover: "\<And>e v. attributes (page s) e ''__elementId'' = Some v
          \<Longrightarrow> \<exists>k. (e, k) \<in> set tr \<and> v = string_of_nat k"
    by (auto simp: lifetime_invariant_def)
  have mono: "nextLabel s \<le> nextLabel ?s'" by (rule labelElements_loop_nextLabel_mono)
  have "[initial_nextLabel ..< nextLabel s + (nextLabel ?s' - nextLabel s)]
          = [initial_nextLabel ..< nextLabel s]
            @ [nextLabel s ..< nextLabel s + (nextLabel ?s' - nextLabel s)]"
    using base by (rule upt_add_eq_append)
  then have "map snd (tr @ assignments elements s) = [initial_nextLabel ..< nextLabel ?s']"
    using ids mono by (simp add: assignments_ids)
  moreover have "initial_nextLabel \<le> nextLabel ?s'" using base mono by simp
  moreover have "attributes (page ?s') e ''__elementId'' = Some (string_of_nat k)"
    if "(e, k) \<in> set (tr @ assignments elements s)" for e k
    using that stamped [of e k] labelElements_loop_keeps assignments_stamped by auto
  moreover have "\<exists>k. (e, k) \<in> set (tr @ assignments elements s) \<and> v = string_of_nat k"
    if after: "attributes (page ?s') e ''__elementId'' = Some v" for e v
  proof (cases "attributes (page s) e ''__elementId''")
    case None
    then show ?thesis using assignments_cover [OF None after] by auto
  next
    case (Some w)
    then have "attributes (page ?s') e ''__elementId'' = Some w"
      by (rule labelElements_loop_keeps)
    then have "w = v" using after by simp
    then show ?thesis using cover [OF Some] by auto
  qed
  ultimately show ?case unfolding lifetime_invariant_def by blast
next
  case (host tr s d')
  then show ?case by (simp add: lifetime_invariant_def)
qed

lemma upt_strictly_sorted: "sorted_wrt (<) [m ..< (n::nat)]"
  by simp

lemma ids_distinct_nodes:
  assumes "map snd tr = [m ..< (n::nat)]" "(e, k) \<in> set tr" "(e', k) \<in> set tr"
  shows "e = e'"
proof -
  have "distinct (map snd tr)" using assms(1) by simp
  then have "inj_on snd (set tr)" by (simp add: distinct_map)
  then have "(e, k) = (e', k)"
    using assms(2,3) inj_onD [of snd "set tr" "(e, k)" "(e', k)"] by simp
  then show ?thesis by simp
qed

section \<open>Identifiers over a page lifetime\<close>

text \<open>
  Claim C6.  Over a page lifetime the identifiers handed out are, in the order of their
  assignment, the numbers from the base 10 up to the counter: each is larger than all the
  ones before it.  No identifier goes to two different elements, and every element that was
  given one still carries it, whatever the host removed or changed in between.
\<close>

theorem identifiers_increase_and_persist:
  assumes "lifetime tr s"
  shows "map snd tr = [10 ..< nextLabel s]
         \<and> sorted_wrt (<) (map snd tr)
         \<and> (\<forall>e e' k. (e, k) \<in> set tr \<and> (e', k) \<in> set tr \<longrightarrow> e = e')
         \<and> (\<forall>e k. (e, k) \<in> set tr
               \<longrightarrow> getAttribute (page s) e ''__elementId'' = Str (string_of_nat k))"
proof -
  have inv: "lifetime_invariant tr s" using assms by (rule lifetime_invariant_holds)
  then have ids: "map snd tr = [10 ..< nextLabel s]"
    by (simp add: lifetime_invariant_def initial_nextLabel_def)
  have "sorted_wrt (<) (map snd tr)" unfolding ids by (rule upt_strictly_sorted)
  moreover have "\<forall>e e' k. (e, k) \<in> set tr \<and> (e', k) \<in> set tr \<longrightarrow> e = e'"
    using ids_distinct_nodes [OF ids] by blast
  moreover have "\<forall>e k. (e, k) \<in> set tr
               \<longrightarrow> getAttribute (page s) e ''__elementId'' = Str (string_of_nat k)"
    using inv by (simp add: lifetime_invariant_def getAttribute_def)
  ultimately show ?thesis using ids by blast
qed


theorem identifiers_increase_and_persist_witness:
  "lifetime [(the_select, 10), (Sub the_select 0, 11), (Sub the_select 1, 12)] three_labelled
   \<and> map snd [(the_select, 10::nat), (Sub the_select 0, 11), (Sub the_select 1, 12)]
       = [10 ..< nextLabel three_labelled]
   \<and> getAttribute (page three_labelled) the_select ''__elementId'' = Str (string_of_nat 10)
   \<and> getAttribute (page three_labelled) (Sub the_select 1) ''__elementId''
       = Str (string_of_nat 12)"
proof -
  have start: "lifetime [] (fresh (select_page None))"
    unfolding fresh_def
    by (rule lifetime.start) (simp add: hasAttribute_def select_page_def empty_page_def)
  have "lifetime ([] @ assignments [the_select, Sub the_select 0] (fresh (select_page None)))
          two_labelled"
    unfolding two_labelled_def by (rule lifetime.labelled [OF start])
  then have two: "lifetime [(the_select, 10), (Sub the_select 0, 11)] two_labelled"
    by (simp add: label_eval select_page_def the_select_def)
  have removed: "lifetime [(the_select, 10), (Sub the_select 0, 11)] after_removal"
    unfolding after_removal_def by (rule lifetime.host [OF two]) simp
  have third: "assignments [Sub the_select 1] after_removal = [(Sub the_select 1, 12)]"
    by (simp add: after_removal_def two_labelled_def label_eval select_page_def the_select_def)
  have "lifetime ([(the_select, 10), (Sub the_select 0, 11)]
                   @ assignments [Sub the_select 1] after_removal) three_labelled"
    unfolding three_labelled_def by (rule lifetime.labelled [OF removed])
  then have three:
    "lifetime [(the_select, 10), (Sub the_select 0, 11), (Sub the_select 1, 12)] three_labelled"
    unfolding third by simp
  note all = identifiers_increase_and_persist [OF three]
  have ids: "map snd [(the_select, 10::nat), (Sub the_select 0, 11), (Sub the_select 1, 12)]
       = [10 ..< nextLabel three_labelled]"
    by (rule all [THEN conjunct1])
  have "\<forall>e k. (e, k) \<in> set [(the_select, 10), (Sub the_select 0, 11), (Sub the_select 1, 12)]
               \<longrightarrow> getAttribute (page three_labelled) e ''__elementId'' = Str (string_of_nat k)"
    by (rule all [THEN conjunct2, THEN conjunct2, THEN conjunct2])
  then have "getAttribute (page three_labelled) the_select ''__elementId'' = Str (string_of_nat 10)"
    and "getAttribute (page three_labelled) (Sub the_select 1) ''__elementId''
       = Str (string_of_nat 12)"
    by simp_all
  then show ?thesis using three ids by simp
qed

section \<open>Labels do not change what the host answers\<close>

lemma same_but_labels_fields:
  assumes "same_but_labels d d'"
  shows "querySelectorAll_star d' = querySelectorAll_star d"
    and "tagName d' = tagName d"
    and "disabled d' = disabled d"
    and "offsetWidth d' = offsetWidth d"
    and "offsetHeight d' = offsetHeight d"
    and "getClientRects d' = getClientRects d"
    and "cursor d' = cursor d"
    and "elementFromPoint d' = elementFromPoint d"
    and "shadowRoot d' = shadowRoot d"
  using assms by (auto simp: same_but_labels_def)

lemma same_but_labels_attributes:
  "same_but_labels d d' \<Longrightarrow> a \<noteq> ''__elementId'' \<Longrightarrow> attributes d' e a = attributes d e a"
  by (auto simp: same_but_labels_def)

lemma same_but_labels_isVisible:
  "same_but_labels d d' \<Longrightarrow> isVisible d' = isVisible d"
  by (intro ext) (simp add: isVisible_def same_but_labels_fields)

lemma same_but_labels_isTopmost:
  "same_but_labels d d' \<Longrightarrow> isTopmost d' = isTopmost d"
  by (intro ext) (simp add: isTopmost_def same_but_labels_fields)

lemma same_but_labels_matches_controls:
  "same_but_labels d d' \<Longrightarrow> matches_controls d' = matches_controls d"
  by (intro ext)
    (simp add: matches_controls_def hasAttribute_def getAttribute_def
       same_but_labels_fields same_but_labels_attributes)

lemma same_but_labels_matches_role:
  "same_but_labels d d' \<Longrightarrow> matches_role d' = matches_role d"
  by (intro ext) (simp add: matches_role_def hasAttribute_def same_but_labels_attributes)

lemma same_but_labels_matches_interactive_roles:
  "same_but_labels d d' \<Longrightarrow> matches_interactive_roles d' = matches_interactive_roles d"
  by (intro ext)
    (simp add: matches_interactive_roles_def getAttribute_def
       same_but_labels_fields same_but_labels_attributes)

lemma same_but_labels_collect_controls:
  "same_but_labels d d' \<Longrightarrow> collect_controls d' nodeList results = collect_controls d nodeList results"
  by (induction nodeList arbitrary: results)
    (simp_all add: same_but_labels_fields same_but_labels_isVisible)

lemma same_but_labels_collect_roles:
  "same_but_labels d d' \<Longrightarrow> collect_roles d' nodeList results = collect_roles d nodeList results"
  by (induction nodeList arbitrary: results)
    (simp_all add: same_but_labels_fields same_but_labels_isVisible getAttribute_def
       same_but_labels_attributes split: option.split jsval.split)

lemma same_but_labels_getCursor:
  "same_but_labels d d' \<Longrightarrow> getCursor d' = getCursor d"
  by (intro ext) (simp add: getCursor_def same_but_labels_fields split: node.split)

lemma same_but_labels_move_up:
  "same_but_labels d d' \<Longrightarrow> move_up d' c e = move_up d c e"
  by (induction e) (simp_all add: same_but_labels_getCursor split: sum.split)

lemma same_but_labels_collect_cursors:
  "same_but_labels d d' \<Longrightarrow> collect_cursors d' nodeList results = collect_cursors d nodeList results"
  by (induction nodeList arbitrary: results)
    (simp_all add: same_but_labels_fields same_but_labels_isVisible same_but_labels_move_up
       split: sum.split)

lemma same_but_labels_NoShaddow:
  "same_but_labels d d' \<Longrightarrow> getInteractiveElementsNoShaddow d' = getInteractiveElementsNoShaddow d"
  by (simp add: getInteractiveElementsNoShaddow_def same_but_labels_fields
        same_but_labels_matches_controls same_but_labels_matches_role
        same_but_labels_collect_controls same_but_labels_collect_roles
        same_but_labels_collect_cursors)

lemma same_but_labels_topmost_at_some_rect:
  "same_but_labels d d' \<Longrightarrow> topmost_at_some_rect d' e rs = topmost_at_some_rect d e rs"
  by (induction rs) (simp_all add: same_but_labels_isTopmost)

lemma same_but_labels_keep_topmost:
  "same_but_labels d d' \<Longrightarrow> keep_topmost d' es results = keep_topmost d es results"
  by (induction es arbitrary: results)
    (simp_all add: same_but_labels_fields same_but_labels_topmost_at_some_rect)

lemma same_but_labels_add_gathered:
  "same_but_labels d d' \<Longrightarrow> add_gathered d' es results = add_gathered d es results"
  by (induction es arbitrary: results)
    (simp_all add: same_but_labels_fields same_but_labels_isVisible getAttribute_def
       same_but_labels_attributes)

lemma gatherAllElements_loop_same_host_all:
  "gatherAllElements_loop d selector stack elements = Some found
   \<Longrightarrow> \<forall>d'. shadowRoot d' = shadowRoot d \<and> querySelectorAll_star d' = querySelectorAll_star d
         \<longrightarrow> gatherAllElements_loop d' selector stack elements = Some found"
proof (induction rule: gatherAllElements_loop.raw_induct [rotated, consumes 1])
  case (1 loop d selector stack elements found)
  show ?case
  proof (intro allI impI)
    fix d' :: dom
    assume same: "shadowRoot d' = shadowRoot d \<and> querySelectorAll_star d' = querySelectorAll_star d"
    show "gatherAllElements_loop d' selector stack elements = Some found"
    proof (cases "stack = []")
      case True
      then show ?thesis using "1" by (subst gatherAllElements_loop.simps) simp
    next
      case False
      then have "loop d selector
          (butlast stack @ List.map_filter (shadowRoot d) (querySelectorAll_star d (last stack)))
          (elements @ filter selector (querySelectorAll_star d (last stack))) = Some found"
        using "1" by simp
      then have "gatherAllElements_loop d' selector
          (butlast stack @ List.map_filter (shadowRoot d) (querySelectorAll_star d (last stack)))
          (elements @ filter selector (querySelectorAll_star d (last stack))) = Some found"
        using "1" same by blast
      then show ?thesis using False same by (subst gatherAllElements_loop.simps) simp
    qed
  qed
qed

lemma gatherAllElements_loop_same_host:
  "gatherAllElements_loop d selector stack elements = Some found
   \<Longrightarrow> shadowRoot d' = shadowRoot d \<Longrightarrow> querySelectorAll_star d' = querySelectorAll_star d
   \<Longrightarrow> gatherAllElements_loop d' selector stack elements = Some found"
  using gatherAllElements_loop_same_host_all by blast

lemma same_but_labels_gatherAllElements:
  assumes "same_but_labels d d'"
  shows "gatherAllElements d' selector start = gatherAllElements d selector start"
proof (cases "gatherAllElements d selector start")
  case (Some found)
  then show ?thesis
    using gatherAllElements_loop_same_host [of d selector "[start]" "[]" found d']
      same_but_labels_fields [OF assms]
    by (simp add: gatherAllElements_def)
next
  case None
  show ?thesis
  proof (cases "gatherAllElements d' selector start")
    case None': None
    then show ?thesis using None by simp
  next
    case (Some found)
    then have "gatherAllElements d selector start = Some found"
      using gatherAllElements_loop_same_host [of d' selector "[start]" "[]" found d]
        same_but_labels_fields [OF assms]
      by (simp add: gatherAllElements_def)
    then show ?thesis using None by simp
  qed
qed

lemma same_but_labels_getInteractiveElements:
  "same_but_labels d d' \<Longrightarrow> getInteractiveElements d' = getInteractiveElements d"
  by (simp add: getInteractiveElements_def same_but_labels_NoShaddow
        same_but_labels_keep_topmost same_but_labels_matches_interactive_roles
        same_but_labels_gatherAllElements same_but_labels_add_gathered
      cong: sum.case_cong option.case_cong)

lemma assignments_none:
  "(\<And>e. e \<in> set elements \<Longrightarrow> hasAttribute (page s) e ''__elementId'')
   \<Longrightarrow> assignments elements s = []"
  by (induction elements) simp_all

lemma getInteractiveElements_after_labelling:
  "getInteractiveElements (page (labelElements_loop elements s)) = getInteractiveElements (page s)"
  by (rule same_but_labels_getInteractiveElements) (rule labelElements_loop_same_page)

lemma getInteractiveRects_again:
  assumes "getInteractiveRects s = (s1, outcome)"
  shows "getInteractiveRects s1 = (s1, outcome)"
proof (cases "getInteractiveElements (page s)")
  case None
  then show ?thesis using assms by (auto simp: getInteractiveRects_def)
next
  case (Some r)
  show ?thesis
  proof (cases r)
    case (Inl e)
    then show ?thesis using assms Some by (auto simp: getInteractiveRects_def)
  next
    case (Inr found)
    let ?s' = "labelElements_loop found s"
    have again: "getInteractiveElements (page ?s') = Some (Inr found)"
      using Some Inr by (simp add: getInteractiveElements_after_labelling)
    have first: "getInteractiveRects s
        = (?s', Some (Inr (getInteractiveRects_loop (page ?s') found Map.empty)))"
      using Some Inr again by (simp add: getInteractiveRects_def labelElements_def)
    then have s1: "s1 = ?s'"
      and out: "outcome = Some (Inr (getInteractiveRects_loop (page ?s') found Map.empty))"
      using assms by simp_all
    have noop: "labelElements_loop found ?s' = ?s'" by (rule labelElements_loop_idem)
    have "getInteractiveRects ?s'
        = (?s', Some (Inr (getInteractiveRects_loop (page ?s') found Map.empty)))"
      using again noop by (simp add: getInteractiveRects_def labelElements_def)
    then show ?thesis using s1 out by simp
  qed
qed

section \<open>Calling twice\<close>

text \<open>
  Claim C5.  A second run of the labeller on the same elements leaves the state as the
  first run left it and assigns nothing.  When \<^verbatim>\<open>getInteractiveRects()\<close> has left
  the state \<open>s1\<close> with some outcome, calling it again on \<open>s1\<close> (the document
  unchanged) leaves \<open>s1\<close> and has the same outcome: the same keys with the same records.
\<close>

theorem labelling_twice_changes_nothing:
  "fst (labelElements elements (fst (labelElements elements s))) = fst (labelElements elements s)
   \<and> assignments elements (fst (labelElements elements s)) = []
   \<and> (getInteractiveRects s = (s1, outcome) \<longrightarrow> getInteractiveRects s1 = (s1, outcome))"
proof -
  have state: "fst (labelElements elements t) = labelElements_loop elements t" for t
    by (simp add: labelElements_def Let_def)
  have "labelElements_loop elements (labelElements_loop elements s) = labelElements_loop elements s"
    by (rule labelElements_loop_idem)
  moreover have "assignments elements (labelElements_loop elements s) = []"
    by (rule assignments_none) (rule labelElements_loop_labels_all)
  ultimately show ?thesis
    using getInteractiveRects_again [of s s1 outcome] by (simp add: state)
qed

theorem labelling_twice_changes_nothing_witness:
  "getInteractiveRects (fst (getInteractiveRects (fresh (select_page None))))
     = (fst (getInteractiveRects (fresh (select_page None))),
        Some (Inr [''10'' \<mapsto> select_record]))"
proof -
  have "getInteractiveRects (fresh (select_page None))
      = (fst (getInteractiveRects (fresh (select_page None))),
         Some (Inr [''10'' \<mapsto> select_record]))"
    using select_page_unfocused by (simp add: prod_eq_iff)
  then show ?thesis
    using labelling_twice_changes_nothing
      [of "[]" "fresh (select_page None)" "fst (getInteractiveRects (fresh (select_page None)))"
          "Some (Inr [''10'' \<mapsto> select_record])"]
    by blast
qed

section \<open>What the snapshot holds\<close>

lemma labels_consistent_step:
  assumes ok: "labels_consistent s" and fresh: "\<not> hasAttribute (page s) e ''__elementId''"
  shows "labels_consistent
           \<lparr>page = setAttribute (page s) e ''__elementId'' (string_of_nat (nextLabel s)),
            nextLabel = nextLabel s + 1\<rparr>"
proof -
  let ?d' = "setAttribute (page s) e ''__elementId'' (string_of_nat (nextLabel s))"
  have at: "attributes ?d' x ''__elementId''
      = (if x = e then Some (string_of_nat (nextLabel s)) else attributes (page s) x ''__elementId'')"
    for x by (simp add: setAttribute_def)
  from ok have below: "\<And>x v. attributes (page s) x ''__elementId'' = Some v
        \<Longrightarrow> \<exists>k<nextLabel s. v = string_of_nat k"
    and uniq: "\<And>x y v. attributes (page s) x ''__elementId'' = Some v
        \<Longrightarrow> attributes (page s) y ''__elementId'' = Some v \<Longrightarrow> x = y"
    unfolding labels_consistent_def by blast+
  have "\<exists>k<nextLabel s + 1. v = string_of_nat k"
    if stamped: "attributes ?d' x ''__elementId'' = Some v" for x v
  proof (cases "x = e")
    case True
    then have "v = string_of_nat (nextLabel s)" using stamped by (simp add: at)
    then show ?thesis by auto
  next
    case False
    then have "attributes (page s) x ''__elementId'' = Some v" using stamped by (simp add: at)
    then obtain k where "k < nextLabel s" "v = string_of_nat k"
      using below [of x v] by blast
    then show ?thesis by (intro exI [of _ k]) simp
  qed
  moreover have "x = y"
    if x: "attributes ?d' x ''__elementId'' = Some v"
      and y: "attributes ?d' y ''__elementId'' = Some v" for x y v
  proof -
    have new_old: False
      if old: "attributes (page s) z ''__elementId'' = Some (string_of_nat (nextLabel s))" for z
    proof -
      obtain k where "k < nextLabel s" "string_of_nat (nextLabel s) = string_of_nat k"
        using below [OF old] by blast
      then show False using string_of_nat_inject by blast
    qed
    show ?thesis
    proof (cases "x = e")
      case True
      then have v: "v = string_of_nat (nextLabel s)" using x by (simp add: at)
      show ?thesis
      proof (cases "y = e")
        case True
        then show ?thesis using \<open>x = e\<close> by simp
      next
        case False
        then show ?thesis using y v new_old [of y] by (simp add: at)
      qed
    next
      case False
      then have xs: "attributes (page s) x ''__elementId'' = Some v" using x by (simp add: at)
      show ?thesis
      proof (cases "y = e")
        case True
        then have "v = string_of_nat (nextLabel s)" using y by (simp add: at)
        then show ?thesis using xs new_old [of x] by simp
      next
        case False
        then show ?thesis using y xs uniq [of x v y] by (simp add: at)
      qed
    qed
  qed
  ultimately show ?thesis unfolding labels_consistent_def by simp
qed

lemma labels_consistent_loop:
  "labels_consistent s \<Longrightarrow> labels_consistent (labelElements_loop elements s)"
proof (induction elements arbitrary: s)
  case Nil
  then show ?case by simp
next
  case (Cons e elements)
  show ?case
  proof (cases "hasAttribute (page s) e ''__elementId''")
    case True
    then show ?thesis using Cons by simp
  next
    case False
    then show ?thesis
      using Cons.IH [OF labels_consistent_step [OF Cons.prems False]] by simp
  qed
qed

lemma rects_loop_dom:
  "(k \<in> dom (getInteractiveRects_loop d es results))
   = (k \<in> dom results
      \<or> (\<exists>e\<in>set es. makes_record d e \<and> js_to_string (getAttribute d e ''__elementId'') = k))"
proof (induction es arbitrary: results)
  case Nil
  show ?case by simp
next
  case (Cons x es)
  show ?case
  proof (cases "makes_record d x")
    case True
    then have "getInteractiveRects_loop d (x # es) results
        = getInteractiveRects_loop d es
            (results(js_to_string (getAttribute d x ''__elementId'')
               \<mapsto> make_record d x (DOMRect (getBoundingClientRect d x))))"
      by (auto simp: makes_record_def Let_def)
    then show ?thesis using True by (auto simp: Cons.IH)
  next
    case False
    then have "getInteractiveRects_loop d (x # es) results = getInteractiveRects_loop d es results"
      by (simp add: makes_record_def Let_def)
    then show ?thesis using False by (auto simp: Cons.IH)
  qed
qed

lemma rects_loop_value:
  "getInteractiveRects_loop d es results k = Some r
   \<Longrightarrow> results k = Some r
       \<or> (\<exists>e\<in>set es. makes_record d e \<and> js_to_string (getAttribute d e ''__elementId'') = k
             \<and> r = make_record d e (DOMRect (getBoundingClientRect d e)))"
proof (induction es arbitrary: results)
  case Nil
  then show ?case by simp
next
  case (Cons x es)
  show ?case
  proof (cases "makes_record d x")
    case True
    let ?results = "results(js_to_string (getAttribute d x ''__elementId'')
               \<mapsto> make_record d x (DOMRect (getBoundingClientRect d x)))"
    have "getInteractiveRects_loop d (x # es) results = getInteractiveRects_loop d es ?results"
      using True by (auto simp: makes_record_def Let_def)
    then have "getInteractiveRects_loop d es ?results k = Some r" using Cons.prems by simp
    from Cons.IH [OF this] show ?thesis using True by (auto split: if_splits)
  next
    case False
    then have "getInteractiveRects_loop d (x # es) results = getInteractiveRects_loop d es results"
      by (simp add: makes_record_def Let_def)
    then show ?thesis using Cons.IH [of results] Cons.prems by auto
  qed
qed

lemma topmost_at_some_rect_nonempty: "topmost_at_some_rect d e rs \<Longrightarrow> rs \<noteq> []"
  by (cases rs) simp_all

lemma keep_topmost_visible:
  "e \<in> set (keep_topmost d es results) \<Longrightarrow> e \<in> set results \<or> isVisible d e"
proof (induction es arbitrary: results)
  case Nil
  then show ?case by simp
next
  case (Cons x es)
  show ?case
  proof (cases "x \<notin> set results \<and> topmost_at_some_rect d x (getClientRects d x)")
    case True
    then have "isVisible d x"
      using topmost_at_some_rect_nonempty [of d x "getClientRects d x"] by (simp add: isVisible_def)
    moreover have "e \<in> set (keep_topmost d es (results @ [x]))" using Cons.prems True by simp
    ultimately show ?thesis using Cons.IH [of "results @ [x]"] by auto
  next
    case False
    then have "e \<in> set (keep_topmost d es results)"
      using Cons.prems by (auto split: if_splits)
    then show ?thesis using Cons.IH [of results] by simp
  qed
qed

lemma add_gathered_members:
  "e \<in> set (add_gathered d es results)
   \<Longrightarrow> e \<in> set results \<or> is_file_input d e \<or> is_option d e \<or> isVisible d e"
proof (induction es arbitrary: results)
  case Nil
  then show ?case by simp
next
  case (Cons x es)
  have step: "(add_gathered d (x # es) results = add_gathered d es (results @ [x])
                \<and> (is_file_input d x \<or> is_option d x \<or> isVisible d x))
              \<or> add_gathered d (x # es) results = add_gathered d es results"
    by (simp add: is_file_input_def is_option_def)
  show ?case
  proof (cases "add_gathered d (x # es) results = add_gathered d es results")
    case True
    then show ?thesis using Cons.IH [of results] Cons.prems by simp
  next
    case False
    then have push: "add_gathered d (x # es) results = add_gathered d es (results @ [x])"
      and why: "is_file_input d x \<or> is_option d x \<or> isVisible d x"
      using step by blast+
    have "e \<in> set (add_gathered d es (results @ [x]))" using Cons.prems push by simp
    then show ?thesis using Cons.IH [of "results @ [x]"] why by auto
  qed
qed

lemma getInteractiveElements_members:
  assumes "getInteractiveElements d = Some (Inr elements)" "e \<in> set elements"
  shows "is_file_input d e \<or> is_option d e \<or> isVisible d e"
proof -
  obtain ns found where "elements = add_gathered d found (keep_topmost d ns [])"
    using assms(1)
    by (auto simp: getInteractiveElements_def Let_def split: sum.splits option.splits)
  then show ?thesis
    using assms(2) add_gathered_members [of e d found "keep_topmost d ns []"]
      keep_topmost_visible [of e d ns "[]"] by auto
qed

lemma getInteractiveRects_returns:
  assumes "getInteractiveRects s = (s', Some (Inr results))"
  obtains elements where "getInteractiveElements (page s) = Some (Inr elements)"
    and "s' = labelElements_loop elements s"
    and "results = getInteractiveRects_loop (page s') elements Map.empty"
proof -
  obtain found where found: "getInteractiveElements (page s) = Some (Inr found)"
    using assms by (auto simp: getInteractiveRects_def split: option.splits sum.splits)
  let ?s' = "labelElements_loop found s"
  have "getInteractiveElements (page ?s') = Some (Inr found)"
    using found by (simp add: getInteractiveElements_after_labelling)
  then have "getInteractiveRects s
      = (?s', Some (Inr (getInteractiveRects_loop (page ?s') found Map.empty)))"
    using found by (simp add: getInteractiveRects_def labelElements_def)
  then have "s' = ?s'" "results = getInteractiveRects_loop (page ?s') found Map.empty"
    using assms by simp_all
  then show thesis using that [OF found] by simp
qed

lemma labels_consistent_unique:
  "labels_consistent s \<Longrightarrow> attributes (page s) x ''__elementId'' = Some v
   \<Longrightarrow> attributes (page s) y ''__elementId'' = Some v \<Longrightarrow> x = y"
  unfolding labels_consistent_def by blast

lemma key_of_labelled:
  "attributes d e ''__elementId'' = Some k \<Longrightarrow> js_to_string (getAttribute d e ''__elementId'') = k"
  by (simp add: getAttribute_def)

lemma record_under_own_key:
  assumes ok: "labels_consistent s"
    and run: "getInteractiveRects s = (s', Some (Inr results))"
    and label: "attributes (page s') e ''__elementId'' = Some k"
  shows "(k \<in> dom results)
         = (\<exists>elements. getInteractiveElements (page s) = Some (Inr elements)
              \<and> e \<in> set elements \<and> makes_record (page s') e)"
proof -
  from run obtain elements where found: "getInteractiveElements (page s) = Some (Inr elements)"
    and s': "s' = labelElements_loop elements s"
    and results: "results = getInteractiveRects_loop (page s') elements Map.empty"
    by (rule getInteractiveRects_returns)
  have ok': "labels_consistent s'" using ok s' by (simp add: labels_consistent_loop)
  have members: "(k \<in> dom results)
      = (\<exists>x\<in>set elements. makes_record (page s') x
            \<and> js_to_string (getAttribute (page s') x ''__elementId'') = k)"
    unfolding results by (simp add: rects_loop_dom)
  show ?thesis
  proof
    assume "k \<in> dom results"
    then obtain x where x: "x \<in> set elements" "makes_record (page s') x"
      "js_to_string (getAttribute (page s') x ''__elementId'') = k"
      using members by blast
    have "hasAttribute (page s') x ''__elementId''"
      unfolding s' using x(1) by (rule labelElements_loop_labels_all)
    then obtain kx where kx: "attributes (page s') x ''__elementId'' = Some kx"
      by (auto simp: hasAttribute_def)
    then have "kx = k" using x(3) by (simp add: getAttribute_def)
    then have "x = e" using labels_consistent_unique [OF ok' kx] label by simp
    then show "\<exists>elements. getInteractiveElements (page s) = Some (Inr elements)
              \<and> e \<in> set elements \<and> makes_record (page s') e"
      using found x by blast
  next
    assume "\<exists>elements. getInteractiveElements (page s) = Some (Inr elements)
              \<and> e \<in> set elements \<and> makes_record (page s') e"
    then have "e \<in> set elements" "makes_record (page s') e" using found by auto
    then show "k \<in> dom results" using members key_of_labelled [OF label] by blast
  qed
qed

lemma getFocusedElementId_active:
  "activeElement d = Some sel \<Longrightarrow> hasAttribute d sel ''__elementId''
   \<Longrightarrow> getFocusedElementId d = getAttribute d sel ''__elementId''"
  by (simp add: getFocusedElementId_def getFocusedElementId_loop.simps [of d "ElementNode sel"])

lemma same_but_labels_is_option:
  "same_but_labels d d' \<Longrightarrow> is_option d' = is_option d"
  by (intro ext) (simp add: is_option_def same_but_labels_fields)

lemma same_but_labels_is_file_input:
  "same_but_labels d d' \<Longrightarrow> is_file_input d' = is_file_input d"
  by (intro ext)
    (simp add: is_file_input_def getAttribute_def same_but_labels_fields same_but_labels_attributes)







section \<open>Options\<close>




section \<open>Invisible nodes\<close>

text \<open>
  Claim C2, as amended.  A node with zero layout width, zero layout height and no client
  rectangles is among the interactive elements only if it is an \<^verbatim>\<open>input\<close> of type
  \<^verbatim>\<open>file\<close> or an \<^verbatim>\<open>option\<close>, and \<^verbatim>\<open>getInteractiveRects()\<close> holds a
  record under its identifier only if it is such a file input, or an option whose select is
  focused or expanded.
\<close>

theorem invisible_only_file_inputs_and_options:
  assumes invisible: "\<not> isVisible (page s) e"
  shows "(getInteractiveElements (page s) = Some (Inr elements) \<and> e \<in> set elements
            \<longrightarrow> is_file_input (page s) e \<or> is_option (page s) e)
         \<and> (labels_consistent s \<and> getInteractiveRects s = (s', Some (Inr results))
               \<and> attributes (page s') e ''__elementId'' = Some k \<and> k \<in> dom results
            \<longrightarrow> is_file_input (page s) e
                \<or> (is_option (page s) e
                    \<and> (select_focused (page s') e \<or> select_expanded (page s') e)))"
proof (intro conjI impI)
  assume "getInteractiveElements (page s) = Some (Inr elements) \<and> e \<in> set elements"
  then show "is_file_input (page s) e \<or> is_option (page s) e"
    using getInteractiveElements_members [of "page s" elements e] invisible by blast
next
  assume hyp: "labels_consistent s \<and> getInteractiveRects s = (s', Some (Inr results))
               \<and> attributes (page s') e ''__elementId'' = Some k \<and> k \<in> dom results"
  then have run: "getInteractiveRects s = (s', Some (Inr results))" by simp
  from run obtain found where "s' = labelElements_loop found s"
    by (rule getInteractiveRects_returns)
  then have same: "same_but_labels (page s) (page s')"
    by (simp add: labelElements_loop_same_page)
  obtain elements' where found: "getInteractiveElements (page s) = Some (Inr elements')"
    and mem: "e \<in> set elements'" and made: "makes_record (page s') e"
    using hyp record_under_own_key [of s s' results e k] by blast
  have kind: "is_file_input (page s) e \<or> is_option (page s) e"
    using getInteractiveElements_members [OF found mem] invisible by blast
  have "\<not> option_visible (page s') e"
    using invisible by (simp add: option_visible_def same_but_labels_isVisible [OF same])
  moreover have "is_option (page s') e = is_option (page s) e"
    by (simp add: same_but_labels_is_option [OF same])
  ultimately have "is_option (page s) e
      \<Longrightarrow> select_focused (page s') e \<or> select_expanded (page s') e"
    using made by (auto simp: makes_record_def is_option_def)
  then show "is_file_input (page s) e
                \<or> (is_option (page s) e
                    \<and> (select_focused (page s') e \<or> select_expanded (page s') e))"
    using kind by blast
qed

theorem invisible_only_file_inputs_and_options_witness:
  "\<not> isVisible (page (fresh hidden_file_page)) (Top Document 0)
   \<and> getInteractiveRects (fresh hidden_file_page)
       = (hidden_file_state, Some (Inr [''10'' \<mapsto> file_input_record]))
   \<and> attributes (page hidden_file_state) (Top Document 0) ''__elementId'' = Some ''10''
   \<and> is_file_input (page (fresh hidden_file_page)) (Top Document 0)"
proof -
  let ?s = "fresh hidden_file_page"
  have invisible: "\<not> isVisible (page ?s) (Top Document 0)"
    by (simp add: fresh_def isVisible_def hidden_file_page_def empty_page_def)
  have ok: "labels_consistent ?s"
    by (rule labels_consistent_fresh) (simp add: hidden_file_page_def empty_page_def)
  have run: "getInteractiveRects ?s = (hidden_file_state, Some (Inr [''10'' \<mapsto> file_input_record]))"
    using hidden_file_page_rects by (simp add: prod_eq_iff hidden_file_state_def)
  have label: "attributes (page hidden_file_state) (Top Document 0) ''__elementId'' = Some ''10''"
    by (simp add: hidden_file_state_def page_eval hidden_file_page_def)
  have "is_file_input (page ?s) (Top Document 0)
        \<or> (is_option (page ?s) (Top Document 0)
            \<and> (select_focused (page hidden_file_state) (Top Document 0)
                 \<or> select_expanded (page hidden_file_state) (Top Document 0)))"
    using invisible_only_file_inputs_and_options
            [OF invisible, of "[]" hidden_file_state "[''10'' \<mapsto> file_input_record]" "''10''"]
      ok run label
    by simp
  moreover have "\<not> is_option (page ?s) (Top Document 0)"
    by (simp add: is_option_def fresh_def hidden_file_page_def toLowerCase_def lower_char_def)
  ultimately show ?thesis using invisible run label by blast
qed

text \<open>
  Claim C2 as stated fails: a file input without any layout box is among the interactive
  elements and has a record in the map.
\<close>

theorem hidden_file_input_gets_record:
  "\<not> isVisible hidden_file_page (Top Document 0)
   \<and> getInteractiveElements hidden_file_page = Some (Inr [Top Document 0])
   \<and> snd (getInteractiveRects (fresh hidden_file_page)) = Some (Inr [''10'' \<mapsto> file_input_record])"
  using hidden_file_page_rects
  by (simp add: page_eval hidden_file_page_def)

section \<open>The rectangles of a record\<close>

text \<open>
  Claim C1 at a button that another element covers: the host reports the covering element at
  the centre of the button's only rectangle, so the button is not topmost there, and the
  record of the button still lists the rectangle.
\<close>

theorem occluded_button_rect_reported:
  "getClientRects occluded_button_page the_button = [box]
   \<and> isTopmost occluded_button_page the_button
        (r_left box + r_width box / 2) (r_top box + r_height box / 2) = False
   \<and> snd (getInteractiveRects (fresh occluded_button_page)) = Some (Inr [''10'' \<mapsto> button_record])
   \<and> rects button_record = [DOMRect box]"
  using occluded_button_page_rects
  by (simp add: occluded_button_page_def empty_page_def isTopmost_def isTopmost_loop.simps
        the_button_def the_overlay_def button_record_def)

section \<open>JSON-LD in the page metadata\<close>






section \<open>Markdown never throws\<close>

text \<open>
  Claim C7.  \<^verbatim>\<open>getPageMarkdown()\<close> returns a string for every document, with or
  without a body, and when its \<^verbatim>\<open>try\<close> block throws an error the string returned
  is \<open>Error extracting page content: \<close> followed by the message of that error.
\<close>

theorem getPageMarkdown_never_throws:
  "(\<exists>markdown. getPageMarkdown body = Inr markdown)
   \<and> (\<forall>error. getPageMarkdown_try body = Inl error
         \<longrightarrow> getPageMarkdown body = Inr (''Error extracting page content: '' @ exn_message error))"
proof (cases "getPageMarkdown_try body")
  case (Inl error)
  then show ?thesis by (simp add: getPageMarkdown_def)
next
  case (Inr markdown)
  then show ?thesis by (simp add: getPageMarkdown_def)
qed

lemmas markdown_eval =
  getPageMarkdown_def getPageMarkdown_try_def processElement_def has_tag_def blockElements_def
  newline_def endsWith_def trim_def is_space_def is_blank_def toLowerCase_def lower_char_def
  string_of_nat.simps digit_char_def Let_def

theorem getPageMarkdown_never_throws_witness:
  "getPageMarkdown None
     = Inr ''Error extracting page content: Cannot read properties of null (reading cloneNode)''
   \<and> getPageMarkdown (Some sample_body)
     = Inr (''# Title'' @ newline @ newline @ ''Body text'' @ newline @ newline
            @ ''- a'' @ newline @ ''- b'')"
  using getPageMarkdown_never_throws [of None]
  by (simp add: markdown_eval sample_body_def)

end
